theory Spec2Isabelle
  imports Complex_Main "HOL-Library.Word"
begin

section \<open>JavaScript strings\<close>

text \<open>
  A JavaScript string is a sequence of UTF-16 code units. String literals of the source
  are written \<open>js ''...''\<close>.
\<close>

type_synonym jsstring = "16 word list"

definition js :: "string \<Rightarrow> jsstring" where
  "js s = map of_char s"

abbreviation slash :: "16 word" where "slash \<equiv> 0x2F"
abbreviation backslash :: "16 word" where "backslash \<equiv> 0x5C"
abbreviation percent :: "16 word" where "percent \<equiv> 0x25"

text \<open>\<open>String.prototype.startsWith\<close> and \<open>endsWith\<close>.\<close>

definition startsWith :: "jsstring \<Rightarrow> jsstring \<Rightarrow> bool" where
  "startsWith s p = (take (length p) s = p)"

definition endsWith :: "jsstring \<Rightarrow> jsstring \<Rightarrow> bool" where
  "endsWith s p = (length p \<le> length s \<and> drop (length s - length p) s = p)"

text \<open>The exceptions the handler can raise (a rejected promise of \<open>fetch\<close>).\<close>

datatype exn = URIError | TypeError

definition prepend :: "jsstring \<Rightarrow> exn + jsstring \<Rightarrow> exn + jsstring" where
  "prepend s r = (case r of Inl e \<Rightarrow> Inl e | Inr t \<Rightarrow> Inr (s @ t))"

section \<open>Platform functions: URI component coding (ECMA-262, Decode and Encode)\<close>

definition hexval :: "16 word \<Rightarrow> nat option" where
  "hexval c =
     (let n = unat c in
      if 48 \<le> n \<and> n \<le> 57 then Some (n - 48)
      else if 65 \<le> n \<and> n \<le> 70 then Some (n - 55)
      else if 97 \<le> n \<and> n \<le> 102 then Some (n - 87)
      else None)"

text \<open>An escape \<open>%XX\<close> at the head of the string: its octet and the rest.\<close>

fun hex_octet :: "jsstring \<Rightarrow> (nat \<times> jsstring) option" where
  "hex_octet (p # a # b # r) =
     (if p = percent then
        (case hexval a of
           None \<Rightarrow> None
         | Some x \<Rightarrow> (case hexval b of None \<Rightarrow> None | Some y \<Rightarrow> Some (16 * x + y, r)))
      else None)"
| "hex_octet _ = None"

fun cont_octets :: "nat \<Rightarrow> jsstring \<Rightarrow> (nat list \<times> jsstring) option" where
  "cont_octets 0 s = Some ([], s)"
| "cont_octets (Suc n) s =
     (case hex_octet s of
        None \<Rightarrow> None
      | Some (b, r) \<Rightarrow>
          (case cont_octets n r of None \<Rightarrow> None | Some (bs, r') \<Rightarrow> Some (b # bs, r')))"

definition continuation :: "nat \<Rightarrow> bool" where
  "continuation b = (128 \<le> b \<and> b < 192)"

text \<open>
  The code point of a multi-octet UTF-8 sequence with leading octet \<open>B\<close>, when the
  sequence is valid: continuation octets are \<open>10xxxxxx\<close>, the encoding is the shortest
  one, and the code point is neither a surrogate nor beyond U+10FFFF.
\<close>

definition utf8_code_point :: "nat \<Rightarrow> nat list \<Rightarrow> nat option" where
  "utf8_code_point B bs =
     (if \<not> list_all continuation bs then None
      else
        let n = Suc (length bs);
            lead = (if n = 2 then B - 192 else if n = 3 then B - 224 else B - 240);
            v = foldl (\<lambda>acc b. acc * 64 + (b - 128)) lead bs;
            lo = (if n = 2 then 128 else if n = 3 then 2048 else 65536)
        in if v < lo \<or> (55296 \<le> v \<and> v \<le> 57343) \<or> 1114111 < v then None else Some v)"

definition utf16_encode :: "nat \<Rightarrow> jsstring" where
  "utf16_encode cp =
     (if cp < 65536 then [of_nat cp]
      else [of_nat (55296 + (cp - 65536) div 1024), of_nat (56320 + (cp - 65536) mod 1024)])"

lemma hex_octet_length: "hex_octet s = Some (b, r) \<Longrightarrow> length r < length s"
  by (cases s rule: hex_octet.cases) (auto split: if_splits option.splits)

lemma cont_octets_length: "cont_octets n s = Some (bs, r) \<Longrightarrow> length r \<le> length s"
proof (induction n arbitrary: s bs r)
  case 0
  then show ?case by simp
next
  case (Suc n)
  then show ?case
    by (fastforce split: option.splits prod.splits dest: hex_octet_length)
qed

function decodeURIComponent :: "jsstring \<Rightarrow> exn + jsstring" where
  "decodeURIComponent [] = Inr []"
| "decodeURIComponent (c # cs) =
     (if c \<noteq> percent then prepend [c] (decodeURIComponent cs)
      else
        (case hex_octet (c # cs) of
           None \<Rightarrow> Inl URIError
         | Some (B, r) \<Rightarrow>
             if B < 128 then prepend [of_nat B] (decodeURIComponent r)
             else if B < 192 \<or> 248 \<le> B then Inl URIError
             else
               (case cont_octets (if B < 224 then 1 else if B < 240 then 2 else 3) r of
                  None \<Rightarrow> Inl URIError
                | Some (bs, r') \<Rightarrow>
                    (case utf8_code_point B bs of
                       None \<Rightarrow> Inl URIError
                     | Some cp \<Rightarrow> prepend (utf16_encode cp) (decodeURIComponent r')))))"
  by pat_completeness auto
termination
proof (relation "measure length", goal_cases)
  case 1
  show ?case by simp
next
  case (2 c cs)
  show ?case by simp
next
  case (3 c cs x2 B r)
  then show ?case using hex_octet_length [of "c # cs" B r] by simp
next
  case (4 c cs x2 B r x2a bs r')
  have "length r < length (c # cs)"
    using 4 by (metis hex_octet_length)
  moreover have "length r' \<le> length r"
    using 4 by (metis cont_octets_length)
  ultimately show ?case by simp
qed

definition unreserved :: "16 word \<Rightarrow> bool" where
  "unreserved c =
     (let n = unat c in
      (65 \<le> n \<and> n \<le> 90) \<or> (97 \<le> n \<and> n \<le> 122) \<or> (48 \<le> n \<and> n \<le> 57) \<or>
      n \<in> set [45, 95, 46, 33, 126, 42, 39, 40, 41])"

definition hexdigit :: "nat \<Rightarrow> 16 word" where
  "hexdigit d = (if d < 10 then of_nat (48 + d) else of_nat (55 + d))"

definition pct :: "nat \<Rightarrow> jsstring" where
  "pct b = [percent, hexdigit (b div 16), hexdigit (b mod 16)]"

definition utf8_encode :: "nat \<Rightarrow> nat list" where
  "utf8_encode cp =
     (if cp < 128 then [cp]
      else if cp < 2048 then [192 + cp div 64, 128 + cp mod 64]
      else if cp < 65536 then [224 + cp div 4096, 128 + (cp div 64) mod 64, 128 + cp mod 64]
      else [240 + cp div 262144, 128 + (cp div 4096) mod 64, 128 + (cp div 64) mod 64,
            128 + cp mod 64])"

definition is_lead :: "16 word \<Rightarrow> bool" where
  "is_lead c = (55296 \<le> unat c \<and> unat c \<le> 56319)"

definition is_trail :: "16 word \<Rightarrow> bool" where
  "is_trail c = (56320 \<le> unat c \<and> unat c \<le> 57343)"

definition pair_code_point :: "16 word \<Rightarrow> 16 word \<Rightarrow> nat" where
  "pair_code_point hi lo = 65536 + (unat hi - 55296) * 1024 + (unat lo - 56320)"

definition escape_code_point :: "nat \<Rightarrow> jsstring" where
  "escape_code_point cp = concat (map pct (utf8_encode cp))"

fun encodeURIComponent :: "jsstring \<Rightarrow> exn + jsstring" where
  "encodeURIComponent [] = Inr []"
| "encodeURIComponent (c # cs) =
     (if unreserved c then prepend [c] (encodeURIComponent cs)
      else if is_trail c then Inl URIError
      else if is_lead c then
        (case cs of
           [] \<Rightarrow> Inl URIError
         | d # ds \<Rightarrow>
             if is_trail d
             then prepend (escape_code_point (pair_code_point c d)) (encodeURIComponent ds)
             else Inl URIError)
      else prepend (escape_code_point (unat c)) (encodeURIComponent cs))"

text \<open>
  A string is well formed when it has no unpaired surrogate; it is ASCII when every code
  unit is below 128, as in the path of a parsed URL.
\<close>

fun well_formed :: "jsstring \<Rightarrow> bool" where
  "well_formed [] = True"
| "well_formed (c # cs) =
     (if is_lead c then (case cs of [] \<Rightarrow> False | d # ds \<Rightarrow> is_trail d \<and> well_formed ds)
      else \<not> is_trail c \<and> well_formed cs)"

definition ascii :: "jsstring \<Rightarrow> bool" where
  "ascii s = list_all (\<lambda>c. unat c < 128) s"

section \<open>Platform values: what \<open>JSON.parse\<close> returns\<close>

datatype number = Finite rat | NegZero | PosInfinity | NegInfinity | NaN

datatype jsvalue =
    JNull
  | JBool bool
  | JNum number
  | JStr jsstring
  | JArr "jsvalue list"
  | JObj "(jsstring \<times> jsvalue) list"

text \<open>\<open>ToBoolean\<close>, as \<open>!x\<close> applies it.\<close>

fun truthy :: "jsvalue \<Rightarrow> bool" where
  "truthy JNull = False"
| "truthy (JBool b) = b"
| "truthy (JNum n) = (n \<noteq> Finite 0 \<and> n \<noteq> NegZero \<and> n \<noteq> NaN)"
| "truthy (JStr s) = (s \<noteq> [])"
| "truthy (JArr xs) = True"
| "truthy (JObj fs) = True"

text \<open>
  The property read \<open>latest.version\<close>: a \<open>TypeError\<close> on \<open>null\<close>, \<open>undefined\<close>
  (here \<open>None\<close>) on a value that has no such property.
\<close>

fun get_version :: "jsvalue \<Rightarrow> exn + jsvalue option" where
  "get_version JNull = Inl TypeError"
| "get_version (JObj fs) = Inr (map_of fs (js ''version''))"
| "get_version v = Inr None"

text \<open>
  The functions of the platform that the worker calls and that are taken as parameters:
  \<open>JSON.parse\<close> (\<open>None\<close> when it throws a \<open>SyntaxError\<close>), \<open>ToString\<close> on a value that is
  not a string, the serialisation \<open>new URL(path, origin).toString()\<close>, and the clock
  \<open>new Date().toISOString()\<close>.
\<close>

record runtime =
  JSON_parse :: "jsstring \<Rightarrow> jsvalue option"
  ToString :: "jsvalue \<Rightarrow> exn + jsstring"
  URL_href :: "jsstring \<Rightarrow> jsstring \<Rightarrow> jsstring"
  Date_now :: jsstring

definition to_string :: "runtime \<Rightarrow> jsvalue \<Rightarrow> exn + jsstring" where
  "to_string rt v = (case v of JStr s \<Rightarrow> Inr s | _ \<Rightarrow> ToString rt v)"

section \<open>Responses\<close>

text \<open>
  A \<open>Headers\<close> object: names are case-insensitive, kept in lower case; \<open>set\<close> replaces.
\<close>

type_synonym headers = "jsstring \<rightharpoonup> jsstring"

definition lower :: "jsstring \<Rightarrow> jsstring" where
  "lower s = map (\<lambda>c. if 0x41 \<le> c \<and> c \<le> 0x5A then c + 0x20 else c) s"

definition hset :: "headers \<Rightarrow> jsstring \<Rightarrow> jsstring \<Rightarrow> headers" where
  "hset h k v = h(lower k \<mapsto> v)"

definition hget :: "headers \<Rightarrow> jsstring \<Rightarrow> jsstring option" where
  "hget h k = h (lower k)"

definition hset_all :: "headers \<Rightarrow> (jsstring \<times> jsstring) list \<Rightarrow> headers" where
  "hset_all h kvs = foldl (\<lambda>h (k, v). hset h k v) h kvs"

definition Headers :: "(jsstring \<times> jsstring) list \<Rightarrow> headers" where
  "Headers kvs = hset_all Map.empty kvs"

text \<open>
  A response body: none, a string, the text \<open>JSON.stringify(data, null, 2) + "\n"\<close> of a
  value (kept as the value), or the bytes of a stored object.
\<close>

datatype body = NoBody | Text jsstring | JsonText jsvalue | Stream "8 word list"

record response =
  status :: nat
  headers :: headers
  body :: body

definition CORS_HEADERS :: "(jsstring \<times> jsstring) list" where
  "CORS_HEADERS =
     [(js ''Access-Control-Allow-Origin'', js ''*''),
      (js ''Access-Control-Allow-Methods'', js ''GET,POST,OPTIONS''),
      (js ''Access-Control-Allow-Headers'',
       js ''Content-Type, Authorization, X-Hub-Signature-256'')]"

text \<open>
  \<open>json(data, init)\<close> and \<open>text(data, init)\<close>: every call of the worker passes at most a
  status in \<open>init\<close>, so \<open>init\<close> is the optional status.
\<close>

definition json :: "jsvalue \<Rightarrow> nat option \<Rightarrow> response" where
  "json data init =
     \<lparr>status = (case init of None \<Rightarrow> 200 | Some s \<Rightarrow> s),
      headers = Headers ((js ''content-type'', js ''application/json; charset=utf-8'')
                          # CORS_HEADERS),
      body = JsonText data\<rparr>"

definition text_response :: "jsstring \<Rightarrow> nat option \<Rightarrow> response" where
  "text_response data init =
     \<lparr>status = (case init of None \<Rightarrow> 200 | Some s \<Rightarrow> s),
      headers = Headers ((js ''content-type'', js ''text/plain; charset=utf-8'')
                          # CORS_HEADERS),
      body = Text data\<rparr>"

definition notFound :: response where
  "notFound = json (JObj [(js ''error'', JStr (js ''not_found''))]) (Some 404)"

definition badRequest :: "jsstring \<Rightarrow> response" where
  "badRequest message =
     json (JObj [(js ''error'', JStr (js ''bad_request'')), (js ''message'', JStr message)])
       (Some 400)"

section \<open>Key canonicalization\<close>

text \<open>\<open>parts.join("/")\<close>.\<close>

fun join :: "jsstring list \<Rightarrow> jsstring" where
  "join [] = []"
| "join [p] = p"
| "join (p # q # ps) = p @ slash # join (q # ps)"

text \<open>\<open>.replace(/\\/g, "/")\<close>: every backslash becomes a slash.\<close>

definition replace_backslashes :: "jsstring \<Rightarrow> jsstring" where
  "replace_backslashes s = map (\<lambda>c. if c = backslash then slash else c) s"

text \<open>\<open>.replace(/\/+/, "/")\<close>, not global: the first run of slashes becomes one slash.\<close>

fun replace_first_slash_run :: "jsstring \<Rightarrow> jsstring" where
  "replace_first_slash_run [] = []"
| "replace_first_slash_run (c # cs) =
     (if c = slash then slash # dropWhile (\<lambda>d. d = slash) cs
      else c # replace_first_slash_run cs)"

text \<open>\<open>.replace(/\/{2,}/g, "/")\<close>: every run of two or more slashes becomes one slash.\<close>

function collapse_slash_runs :: "jsstring \<Rightarrow> jsstring" where
  "collapse_slash_runs [] = []"
| "collapse_slash_runs [c] = [c]"
| "collapse_slash_runs (c # d # cs) =
     (if c = slash \<and> d = slash
      then slash # collapse_slash_runs (dropWhile (\<lambda>e. e = slash) cs)
      else c # collapse_slash_runs (d # cs))"
  by pat_completeness auto
termination
  by (relation "measure length") (auto simp: less_Suc_eq_le le_SucI length_dropWhile_le)

text \<open>\<open>.replace(/^\//, "")\<close>: one leading slash is removed.\<close>

definition strip_leading_slash :: "jsstring \<Rightarrow> jsstring" where
  "strip_leading_slash s = (case s of [] \<Rightarrow> [] | c # cs \<Rightarrow> if c = slash then cs else c # cs)"

definition keyJoin :: "jsstring list \<Rightarrow> jsstring" where
  "keyJoin parts =
     strip_leading_slash (collapse_slash_runs (replace_first_slash_run
       (replace_backslashes (join parts))))"

text \<open>What a canonical key is: no backslash, no leading slash, no two slashes in a row.\<close>

fun leading_slash :: "jsstring \<Rightarrow> bool" where
  "leading_slash [] = False"
| "leading_slash (c # cs) = (c = slash)"

fun has_double_slash :: "jsstring \<Rightarrow> bool" where
  "has_double_slash [] = False"
| "has_double_slash [c] = False"
| "has_double_slash (c # d # cs) = ((c = slash \<and> d = slash) \<or> has_double_slash (d # cs))"

definition canonical_key :: "jsstring \<Rightarrow> bool" where
  "canonical_key k = (backslash \<notin> set k \<and> \<not> leading_slash k \<and> \<not> has_double_slash k)"

text \<open>
  A second definition, following the words of the specification rather than the source:
  path separators are normalized to the slash and duplicate separators are collapsed,
  that is, every run of separators becomes one slash.
\<close>

definition is_separator :: "16 word \<Rightarrow> bool" where
  "is_separator c = (c = slash \<or> c = backslash)"

function squeeze_separators :: "jsstring \<Rightarrow> jsstring" where
  "squeeze_separators [] = []"
| "squeeze_separators (c # cs) =
     (if is_separator c then slash # squeeze_separators (dropWhile is_separator cs)
      else c # squeeze_separators cs)"
  by pat_completeness auto
termination
  by (relation "measure length") (auto simp: less_Suc_eq_le length_dropWhile_le)

section \<open>The stores and the three resolvers\<close>

record r2_http_metadata =
  contentType :: "jsstring option"
  contentLanguage :: "jsstring option"
  contentDisposition :: "jsstring option"
  contentEncoding :: "jsstring option"
  cacheControl :: "jsstring option"
  cacheExpiry :: "jsstring option"

record r2object =
  object_body :: "8 word list"
  httpEtag :: jsstring
  httpMetadata :: r2_http_metadata

record env =
  CATALOG_BUCKET :: "jsstring \<rightharpoonup> r2object"
  CATALOG_INDEX :: "jsstring \<rightharpoonup> jsstring"
  OKHAM_CATALOG_WORKER :: jsstring
  INGEST_ENABLED :: jsstring

text \<open>\<open>obj.writeHttpMetadata(headers)\<close>: each stored field sets its header.\<close>

definition hset_opt :: "headers \<Rightarrow> jsstring \<Rightarrow> jsstring option \<Rightarrow> headers" where
  "hset_opt h k vo = (case vo of None \<Rightarrow> h | Some v \<Rightarrow> hset h k v)"

definition writeHttpMetadata :: "r2object \<Rightarrow> headers \<Rightarrow> headers" where
  "writeHttpMetadata obj h =
     (let m = httpMetadata obj;
          h1 = hset_opt h (js ''content-type'') (contentType m);
          h2 = hset_opt h1 (js ''content-language'') (contentLanguage m);
          h3 = hset_opt h2 (js ''content-disposition'') (contentDisposition m);
          h4 = hset_opt h3 (js ''content-encoding'') (contentEncoding m);
          h5 = hset_opt h4 (js ''cache-control'') (cacheControl m)
      in hset_opt h5 (js ''expires'') (cacheExpiry m))"

text \<open>\<open>!v\<close> on a \<open>string | null\<close>: \<open>null\<close> and the empty string are falsy.\<close>

definition falsy :: "jsstring option \<Rightarrow> bool" where
  "falsy v = (case v of None \<Rightarrow> True | Some s \<Rightarrow> s = [])"

definition serveRegistry :: "env \<Rightarrow> jsstring \<Rightarrow> response" where
  "serveRegistry env kind =
     (let key = keyJoin [js ''catalog'', kind, js ''registry.json''];
          v = CATALOG_INDEX env key
      in if falsy v then notFound
         else
           \<lparr>status = 200,
            headers = Headers
              ([(js ''content-type'', js ''application/json; charset=utf-8''),
                (js ''cache-control'', js ''public, max-age=60'')] @ CORS_HEADERS),
            body = Text (the v)\<rparr>)"

definition invalid_latest :: "jsstring \<Rightarrow> response" where
  "invalid_latest latestKey =
     json (JObj [(js ''error'', JStr (js ''invalid_latest'')), (js ''key'', JStr latestKey)])
       (Some 500)"

definition serveLatestAlias ::
  "runtime \<Rightarrow> jsstring \<Rightarrow> env \<Rightarrow> jsstring \<Rightarrow> jsstring \<Rightarrow> jsstring \<Rightarrow> exn + response" where
  "serveLatestAlias rt origin env kind ident file =
     (let latestKey = keyJoin [js ''catalog'', kind, ident, js ''latest.json''];
          latestJson = CATALOG_INDEX env latestKey
      in if falsy latestJson then Inr notFound
         else
           (case JSON_parse rt (the latestJson) of
              None \<Rightarrow> Inr (invalid_latest latestKey)
            | Some latest \<Rightarrow>
                (case get_version latest of
                   Inl e \<Rightarrow> Inl e
                 | Inr None \<Rightarrow> Inr (invalid_latest latestKey)
                 | Inr (Some version) \<Rightarrow>
                     if \<not> truthy version then Inr (invalid_latest latestKey)
                     else
                       (case encodeURIComponent kind of
                          Inl e \<Rightarrow> Inl e
                        | Inr ek \<Rightarrow>
                       (case encodeURIComponent ident of
                          Inl e \<Rightarrow> Inl e
                        | Inr ei \<Rightarrow>
                       (case to_string rt version of
                          Inl e \<Rightarrow> Inl e
                        | Inr vs \<Rightarrow>
                       (case encodeURIComponent vs of
                          Inl e \<Rightarrow> Inl e
                        | Inr ev \<Rightarrow>
                            Inr \<lparr>status = 302,
                                 headers = Headers
                                   ([(js ''location'',
                                      URL_href rt
                                        (slash # ek @ slash # ei @ slash # ev @ slash # file)
                                        origin),
                                     (js ''cache-control'', js ''public, max-age=30'')]
                                    @ CORS_HEADERS),
                                 body = NoBody\<rparr>)))))))"

definition serveArtifact :: "env \<Rightarrow> jsstring \<Rightarrow> jsstring \<Rightarrow> jsstring \<Rightarrow> jsstring \<Rightarrow> response" where
  "serveArtifact env kind ident version file =
     (let key = keyJoin [js ''catalog'', kind, ident, version, file] in
      case CATALOG_BUCKET env key of
        None \<Rightarrow> notFound
      | Some obj \<Rightarrow>
          let h0 = writeHttpMetadata obj Map.empty;
              h1 = hset h0 (js ''etag'') (httpEtag obj);
              h2 = hset h1 (js ''cache-control'') (js ''public, max-age=31536000, immutable'');
              h3 = hset_all h2 CORS_HEADERS;
              h4 = (if falsy (hget h3 (js ''content-type'')) then
                      (if endsWith file (js ''.json'')
                       then hset h3 (js ''content-type'') (js ''application/json; charset=utf-8'')
                       else if endsWith file (js ''.yaml'') \<or> endsWith file (js ''.yml'')
                       then hset h3 (js ''content-type'') (js ''text/yaml; charset=utf-8'')
                       else hset h3 (js ''content-type'') (js ''application/octet-stream''))
                    else h3)
          in \<lparr>status = 200, headers = h4, body = Stream (object_body obj)\<rparr>)"

definition handleIngest :: "env \<Rightarrow> response" where
  "handleIngest env =
     (if INGEST_ENABLED env \<noteq> js ''1'' then
        json (JObj [(js ''error'', JStr (js ''disabled'')),
                    (js ''message'',
                     JStr (js (''Ingest is not enabled yet. Enable by setting INGEST_ENABLED=1 '' @
                               ''and implementing webhook verification + publish pipeline.'')))])
          (Some 501)
      else json (JObj [(js ''error'', JStr (js ''not_implemented''))]) (Some 501))"

section \<open>The router\<close>

text \<open>
  A request, as \<open>fetch\<close> reads it: the method (\<open>req.method\<close>), and the origin and the path of
  \<open>new URL(req.url)\<close>.
\<close>

record request =
  http_method :: jsstring
  origin :: jsstring
  pathname :: jsstring

text \<open>
  The three patterns. \<open>segment\<close> matches \<open>\/([^/]+)\<close> at the head of the string: the group
  is the longest run without a slash, since a slash or the end must follow it. The last
  group \<open>(.+)$\<close> is the rest of the string, not empty and free of line terminators.
\<close>

definition segment :: "jsstring \<Rightarrow> (jsstring \<times> jsstring) option" where
  "segment p =
     (case p of
        [] \<Rightarrow> None
      | c # r \<Rightarrow>
          if c = slash \<and> takeWhile (\<lambda>d. d \<noteq> slash) r \<noteq> []
          then Some (takeWhile (\<lambda>d. d \<noteq> slash) r, dropWhile (\<lambda>d. d \<noteq> slash) r)
          else None)"

definition line_terminator :: "16 word \<Rightarrow> bool" where
  "line_terminator c = (c = 0x0A \<or> c = 0x0D \<or> c = 0x2028 \<or> c = 0x2029)"

definition dot_plus :: "jsstring \<Rightarrow> bool" where
  "dot_plus f = (f \<noteq> [] \<and> list_all (\<lambda>c. \<not> line_terminator c) f)"

text \<open>\<open>/^\/([^/]+)\/registry\.json$/\<close>\<close>

definition registryMatch :: "jsstring \<Rightarrow> jsstring option" where
  "registryMatch p =
     (case segment p of
        None \<Rightarrow> None
      | Some (k, r) \<Rightarrow> if r = js ''/registry.json'' then Some k else None)"

text \<open>\<open>/^\/([^/]+)\/([^/]+)\/latest\/(.+)$/\<close>\<close>

definition latestMatch :: "jsstring \<Rightarrow> (jsstring \<times> jsstring \<times> jsstring) option" where
  "latestMatch p =
     (case segment p of
        None \<Rightarrow> None
      | Some (k, r1) \<Rightarrow>
          (case segment r1 of
             None \<Rightarrow> None
           | Some (i, r2) \<Rightarrow>
               if startsWith r2 (js ''/latest/'') \<and> dot_plus (drop 8 r2)
               then Some (k, i, drop 8 r2)
               else None))"

text \<open>\<open>/^\/([^/]+)\/([^/]+)\/([^/]+)\/(.+)$/\<close>\<close>

definition artifactMatch ::
  "jsstring \<Rightarrow> (jsstring \<times> jsstring \<times> jsstring \<times> jsstring) option" where
  "artifactMatch p =
     (case segment p of
        None \<Rightarrow> None
      | Some (k, r1) \<Rightarrow>
          (case segment r1 of
             None \<Rightarrow> None
           | Some (i, r2) \<Rightarrow>
               (case segment r2 of
                  None \<Rightarrow> None
                | Some (v, r3) \<Rightarrow>
                    if startsWith r3 [slash] \<and> dot_plus (drop 1 r3)
                    then Some (k, i, v, drop 1 r3)
                    else None)))"

text \<open>The legacy prefix: \<open>isLegacyPrefix\<close> and \<open>apiPath\<close> of the source.\<close>

definition isLegacyPrefix :: "jsstring \<Rightarrow> bool" where
  "isLegacyPrefix path =
     (path = js ''/catalog'' \<or> path = js ''/catalog/'' \<or> startsWith path (js ''/catalog/''))"

definition apiPath :: "jsstring \<Rightarrow> jsstring" where
  "apiPath path =
     (if startsWith path (js ''/catalog/'') then drop (length (js ''/catalog'')) path else path)"

definition root_redirect :: response where
  "root_redirect =
     \<lparr>status = 302,
      headers = Headers
        ([(js ''location'', js ''https://okham.io/catalogs/''),
          (js ''cache-control'', js ''public, max-age=300'')] @ CORS_HEADERS),
      body = NoBody\<rparr>"

definition health :: "runtime \<Rightarrow> env \<Rightarrow> jsstring \<Rightarrow> response" where
  "health rt env path =
     json (JObj [(js ''ok'', JBool True),
                 (js ''worker'', JStr (OKHAM_CATALOG_WORKER env)),
                 (js ''now'', JStr (Date_now rt)),
                 (js ''legacy'', JBool (isLegacyPrefix path))])
       None"

text \<open>
  The bodies of the three route blocks of \<open>fetch\<close>: the parameters are decoded, then the
  resolver is called. A \<open>URIError\<close> of \<open>decodeURIComponent\<close> is not caught.
\<close>

definition registry_route :: "env \<Rightarrow> jsstring \<Rightarrow> exn + response" where
  "registry_route env rk =
     (case decodeURIComponent rk of
        Inl e \<Rightarrow> Inl e
      | Inr kind \<Rightarrow> Inr (serveRegistry env kind))"

definition latest_route ::
  "runtime \<Rightarrow> jsstring \<Rightarrow> env \<Rightarrow> jsstring \<Rightarrow> jsstring \<Rightarrow> jsstring \<Rightarrow> exn + response" where
  "latest_route rt orig env rk ri file =
     (case decodeURIComponent rk of
        Inl e \<Rightarrow> Inl e
      | Inr kind \<Rightarrow>
          (case decodeURIComponent ri of
             Inl e \<Rightarrow> Inl e
           | Inr ident \<Rightarrow> serveLatestAlias rt orig env kind ident file))"

definition artifact_route ::
  "env \<Rightarrow> jsstring \<Rightarrow> jsstring \<Rightarrow> jsstring \<Rightarrow> jsstring \<Rightarrow> exn + response" where
  "artifact_route env rk ri rv file =
     (case decodeURIComponent rk of
        Inl e \<Rightarrow> Inl e
      | Inr kind \<Rightarrow>
          (case decodeURIComponent ri of
             Inl e \<Rightarrow> Inl e
           | Inr ident \<Rightarrow>
               (case decodeURIComponent rv of
                  Inl e \<Rightarrow> Inl e
                | Inr version \<Rightarrow> Inr (serveArtifact env kind ident version file))))"

definition fetch :: "runtime \<Rightarrow> env \<Rightarrow> request \<Rightarrow> exn + response" where
  "fetch rt env req =
     (if http_method req = js ''OPTIONS''
      then Inr \<lparr>status = 204, headers = Headers CORS_HEADERS, body = NoBody\<rparr>
      else
        let path = pathname req;
            get = (http_method req = js ''GET'')
        in
          if path = js ''/'' \<or> path = [] \<or> path = js ''/catalog'' \<or> path = js ''/catalog/''
          then Inr root_redirect
          else if apiPath path = js ''/_health'' then Inr (health rt env path)
          else if apiPath path = js ''/_ingest/github'' \<and> http_method req = js ''POST''
          then Inr (handleIngest env)
          else
            (case (if get then registryMatch (apiPath path) else None) of
               Some rk \<Rightarrow> registry_route env rk
             | None \<Rightarrow>
            (case (if get then latestMatch (apiPath path) else None) of
               Some (rk, ri, file) \<Rightarrow> latest_route rt (origin req) env rk ri file
             | None \<Rightarrow>
            (case (if get then artifactMatch (apiPath path) else None) of
               Some (rk, ri, rv, file) \<Rightarrow> artifact_route env rk ri rv file
             | None \<Rightarrow> Inr notFound))))"

text \<open>The fixed cross-origin header set is carried by a \<open>Headers\<close> object.\<close>

definition carries_cors :: "headers \<Rightarrow> bool" where
  "carries_cors h = list_all (\<lambda>(k, v). hget h k = Some v) CORS_HEADERS"

section \<open>Sample data\<close>

text \<open>
  A runtime, stores and requests on which the theorems below are instantiated. The
  sample \<open>JSON.parse\<close> knows the four pointer texts of the sample store; the sample
  \<open>URL\<close> serialisation appends the absolute path to the origin.
\<close>

definition pointer_2_1_0 :: jsstring where
  \<open>pointer_2_1_0 = js ''{"version":"2.1.0"}''\<close>

definition pointer_surrogate :: jsstring where
  \<open>pointer_surrogate = js ''{"version":"'' @ [backslash] @ js ''ud800"}''\<close>

definition sample_runtime :: runtime where
  "sample_runtime =
     \<lparr>JSON_parse = map_of
        [(pointer_2_1_0, JObj [(js ''version'', JStr (js ''2.1.0''))]),
         (js ''null'', JNull),
         (js ''{}'', JObj []),
         (pointer_surrogate, JObj [(js ''version'', JStr [0xD800])])],
      ToString = (\<lambda>v. Inr (js ''[object Object]'')),
      URL_href = (\<lambda>path orig. orig @ path),
      Date_now = js ''2026-01-01T00:00:00.000Z''\<rparr>"

definition no_metadata :: r2_http_metadata where
  "no_metadata =
     \<lparr>contentType = None, contentLanguage = None, contentDisposition = None,
      contentEncoding = None, cacheControl = None, cacheExpiry = None\<rparr>"

definition sample_object :: r2object where
  "sample_object = \<lparr>object_body = [0x61, 0x3A, 0x20, 0x31], httpEtag = js ''etag-1'',
     httpMetadata = no_metadata\<rparr>"

definition sample_env :: env where
  "sample_env =
     \<lparr>CATALOG_BUCKET = map_of
        [(js ''catalog/tools/x/2.1.0/config.yaml'', sample_object),
         (js ''catalog/k/i/v/a b'', sample_object)],
      CATALOG_INDEX = map_of
        [(js ''catalog/tools/x/latest.json'', pointer_2_1_0),
         (js ''catalog/catalog/x/latest.json'', pointer_2_1_0),
         (js ''catalog/tools/n/latest.json'', js ''null''),
         (js ''catalog/tools/e/latest.json'', js ''{}''),
         (js ''catalog/tools/z/latest.json'', []),
         (js ''catalog/tools/s/latest.json'', pointer_surrogate)],
      OKHAM_CATALOG_WORKER = js ''okham-catalog-worker'',
      INGEST_ENABLED = js ''0''\<rparr>"

definition sample_request :: "string \<Rightarrow> string \<Rightarrow> request" where
  "sample_request m p = \<lparr>http_method = js m, origin = js ''https://okham.io'', pathname = js p\<rparr>"

section \<open>Key canonicalization: lemmas\<close>

lemma no_backslash_replace: "backslash \<notin> set (replace_backslashes s)"
  by (auto simp: replace_backslashes_def)

lemma set_replace_first: "set (replace_first_slash_run s) \<subseteq> set s"
  by (induction s) (auto dest: set_dropWhileD)

lemma set_collapse: "set (collapse_slash_runs s) \<subseteq> set s"
  by (induction s rule: collapse_slash_runs.induct) (auto dest: set_dropWhileD)

lemma set_strip: "set (strip_leading_slash s) \<subseteq> set s"
  by (auto simp: strip_leading_slash_def split: list.splits)

lemma leading_dropWhile: "\<not> leading_slash (dropWhile (\<lambda>e. e = slash) cs)"
  by (induction cs) auto

lemma leading_collapse: "leading_slash (collapse_slash_runs s) = leading_slash s"
  by (induction s rule: collapse_slash_runs.induct) auto

lemma double_Cons:
  "has_double_slash (c # s) = ((c = slash \<and> leading_slash s) \<or> has_double_slash s)"
  by (cases s) auto

lemma no_double_collapse: "\<not> has_double_slash (collapse_slash_runs s)"
  by (induction s rule: collapse_slash_runs.induct)
     (auto simp: double_Cons leading_collapse leading_dropWhile)

lemma strip_props:
  "\<not> has_double_slash s \<Longrightarrow>
     \<not> has_double_slash (strip_leading_slash s) \<and> \<not> leading_slash (strip_leading_slash s)"
  by (cases s) (auto simp: strip_leading_slash_def double_Cons)

lemma dropWhile_no_lead: "\<not> leading_slash cs \<Longrightarrow> dropWhile (\<lambda>e. e = slash) cs = cs"
  by (cases cs) auto

lemma replace_first_id: "\<not> has_double_slash s \<Longrightarrow> replace_first_slash_run s = s"
  by (induction s) (auto simp: double_Cons dropWhile_no_lead)

lemma collapse_id: "\<not> has_double_slash s \<Longrightarrow> collapse_slash_runs s = s"
  by (induction s rule: collapse_slash_runs.induct) auto

lemma strip_id: "\<not> leading_slash s \<Longrightarrow> strip_leading_slash s = s"
  by (cases s) (auto simp: strip_leading_slash_def)

lemma replace_backslashes_id: "backslash \<notin> set s \<Longrightarrow> replace_backslashes s = s"
  by (induction s) (auto simp: replace_backslashes_def)

lemma keyJoin_canonical_key: "canonical_key (keyJoin parts)"
proof -
  let ?s = "collapse_slash_runs (replace_first_slash_run (replace_backslashes (join parts)))"
  have "set (keyJoin parts) \<subseteq> set (replace_backslashes (join parts))"
    unfolding keyJoin_def using set_strip set_collapse set_replace_first by blast
  then have "backslash \<notin> set (keyJoin parts)"
    using no_backslash_replace by blast
  moreover have "\<not> has_double_slash (strip_leading_slash ?s) \<and> \<not> leading_slash (strip_leading_slash ?s)"
    by (rule strip_props) (rule no_double_collapse)
  ultimately show ?thesis
    by (simp add: canonical_key_def keyJoin_def)
qed

lemma keyJoin_fixes_canonical: "canonical_key k \<Longrightarrow> keyJoin [k] = k"
  by (simp add: canonical_key_def keyJoin_def replace_backslashes_id replace_first_id
      collapse_id strip_id)

lemma collapse_Cons:
  "\<not> (c = slash \<and> leading_slash s) \<Longrightarrow> collapse_slash_runs (c # s) = c # collapse_slash_runs s"
  by (cases s) auto

lemma collapse_slash_Cons:
  "collapse_slash_runs (slash # s) = slash # collapse_slash_runs (dropWhile (\<lambda>e. e = slash) s)"
  by (cases s) auto

lemma collapse_replace_first:
  "collapse_slash_runs (replace_first_slash_run s) = collapse_slash_runs s"
proof (induction s)
  case Nil
  show ?case by simp
next
  case (Cons c cs)
  show ?case
  proof (cases "c = slash")
    case True
    have "collapse_slash_runs (slash # dropWhile (\<lambda>d. d = slash) cs)
        = slash # collapse_slash_runs (dropWhile (\<lambda>d. d = slash) cs)"
      by (simp add: collapse_Cons leading_dropWhile)
    then show ?thesis using True by (simp add: collapse_slash_Cons)
  next
    case False
    then show ?thesis using Cons by (simp add: collapse_Cons)
  qed
qed

lemma dropWhile_replace_backslashes:
  "dropWhile (\<lambda>e. e = slash) (replace_backslashes s) = replace_backslashes (dropWhile is_separator s)"
  by (induction s) (auto simp: replace_backslashes_def is_separator_def)

lemma collapse_replace_backslashes:
  "collapse_slash_runs (replace_backslashes s) = squeeze_separators s"
proof (induction s rule: squeeze_separators.induct)
  case 1
  show ?case by (simp add: replace_backslashes_def)
next
  case (2 c cs)
  show ?case
  proof (cases "is_separator c")
    case True
    then have "replace_backslashes (c # cs) = slash # replace_backslashes cs"
      by (auto simp: replace_backslashes_def is_separator_def)
    then show ?thesis
      using True 2(1) by (simp add: collapse_slash_Cons dropWhile_replace_backslashes)
  next
    case False
    then have "replace_backslashes (c # cs) = c # replace_backslashes cs" "c \<noteq> slash"
      by (auto simp: replace_backslashes_def is_separator_def)
    then show ?thesis
      using False 2(2) by (simp add: collapse_Cons)
  qed
qed

lemma keyJoin_squeeze:
  "keyJoin parts = strip_leading_slash (squeeze_separators (join parts))"
  by (simp add: keyJoin_def collapse_replace_first collapse_replace_backslashes)

lemma canonical_prefix:
  "s \<noteq> [] \<Longrightarrow> slash \<notin> set s \<Longrightarrow> backslash \<notin> set s \<Longrightarrow> canonical_key t \<Longrightarrow>
     canonical_key (s @ slash # t)"
proof (induction s)
  case Nil
  then show ?case by simp
next
  case (Cons c s)
  show ?case
  proof (cases "s = []")
    case True
    then show ?thesis using Cons.prems by (auto simp: canonical_key_def double_Cons)
  next
    case False
    then have "canonical_key (s @ slash # t)" using Cons by simp
    then show ?thesis using Cons.prems by (auto simp: canonical_key_def double_Cons)
  qed
qed

lemma artifact_key_literal:
  assumes "kind \<noteq> []" "slash \<notin> set kind" "backslash \<notin> set kind"
    and "ident \<noteq> []" "slash \<notin> set ident" "backslash \<notin> set ident"
    and "version \<noteq> []" "slash \<notin> set version" "backslash \<notin> set version"
    and "canonical_key file"
  shows "keyJoin [js ''catalog'', kind, ident, version, file]
     = js ''catalog/'' @ kind @ slash # ident @ slash # version @ slash # file"
proof -
  let ?k = "js ''catalog'' @ slash # kind @ slash # ident @ slash # version @ slash # file"
  have c1: "canonical_key (version @ slash # file)"
    by (rule canonical_prefix) (use assms in simp_all)
  have c2: "canonical_key (ident @ slash # version @ slash # file)"
    by (rule canonical_prefix [OF _ _ _ c1]) (use assms in simp_all)
  have c3: "canonical_key (kind @ slash # ident @ slash # version @ slash # file)"
    by (rule canonical_prefix [OF _ _ _ c2]) (use assms in simp_all)
  have "canonical_key ?k"
    by (rule canonical_prefix [OF _ _ _ c3]) (simp_all add: js_def)
  then have "keyJoin [?k] = ?k" by (rule keyJoin_fixes_canonical)
  moreover have "keyJoin [js ''catalog'', kind, ident, version, file] = keyJoin [?k]"
    by (simp add: keyJoin_def)
  moreover have "?k = js ''catalog/'' @ kind @ slash # ident @ slash # version @ slash # file"
    by (simp add: js_def)
  ultimately show ?thesis by simp
qed

section \<open>The router: lemmas\<close>

lemma takeWhile_no_slash:
  "slash \<notin> set s \<Longrightarrow> takeWhile (\<lambda>d. d \<noteq> slash) (s @ slash # r) = s"
  by (induction s) auto

lemma dropWhile_no_slash:
  "slash \<notin> set s \<Longrightarrow> dropWhile (\<lambda>d. d \<noteq> slash) (s @ slash # r) = slash # r"
  by (induction s) auto

lemma segment_mid:
  "s \<noteq> [] \<Longrightarrow> slash \<notin> set s \<Longrightarrow> segment (slash # s @ slash # r) = Some (s, slash # r)"
  by (simp add: segment_def takeWhile_no_slash dropWhile_no_slash)

lemma registry_shape:
  assumes "rk \<noteq> []" "slash \<notin> set rk"
  shows "registryMatch (slash # rk @ js ''/registry.json'') = Some rk"
proof -
  have "js ''/registry.json'' = slash # js ''registry.json''" by (simp add: js_def)
  then show ?thesis using assms by (simp add: registryMatch_def segment_mid)
qed

lemma latest_shape:
  assumes "rk \<noteq> []" "slash \<notin> set rk" "ri \<noteq> []" "slash \<notin> set ri" "dot_plus file"
  shows "latestMatch (slash # rk @ slash # ri @ js ''/latest/'' @ file) = Some (rk, ri, file)"
proof -
  have l: "js ''/latest/'' @ file = slash # js ''latest/'' @ file" by (simp add: js_def)
  have s1: "segment (slash # rk @ slash # ri @ js ''/latest/'' @ file) = Some (rk, slash # ri @ js ''/latest/'' @ file)"
    using assms by (simp add: segment_mid)
  have s2: "segment (slash # ri @ js ''/latest/'' @ file) = Some (ri, js ''/latest/'' @ file)"
    unfolding l using assms by (simp add: segment_mid)
  have "startsWith (js ''/latest/'' @ file) (js ''/latest/'')" "drop 8 (js ''/latest/'' @ file) = file"
    by (simp_all add: startsWith_def js_def)
  then show ?thesis using assms(5) by (simp add: latestMatch_def s1 s2)
qed

lemma artifact_shape:
  assumes "rk \<noteq> []" "slash \<notin> set rk" "ri \<noteq> []" "slash \<notin> set ri"
    "rv \<noteq> []" "slash \<notin> set rv" "dot_plus file"
  shows "artifactMatch (slash # rk @ slash # ri @ slash # rv @ slash # file) = Some (rk, ri, rv, file)"
  using assms by (simp add: artifactMatch_def segment_mid startsWith_def)

lemma registry_excludes:
  "registryMatch p = Some rk \<Longrightarrow> latestMatch p = None \<and> artifactMatch p = None"
proof -
  assume "registryMatch p = Some rk"
  then have s: "segment p = Some (rk, js ''/registry.json'')"
    by (auto simp: registryMatch_def split: option.splits if_splits)
  have "segment (js ''/registry.json'') = Some (js ''registry.json'', [])"
    by (simp add: segment_def js_def)
  moreover have "segment [] = None" by (simp add: segment_def)
  ultimately show ?thesis using s
    by (simp add: latestMatch_def artifactMatch_def startsWith_def dot_plus_def)
qed

lemma startsWith_append: "startsWith s p \<Longrightarrow> s = p @ drop (length p) s"
  by (metis append_take_drop_id startsWith_def)

lemma latest_is_artifact_shape:
  "latestMatch p = Some (rk, ri, file) \<Longrightarrow> artifactMatch p = Some (rk, ri, js ''latest'', file)"
proof -
  assume a: "latestMatch p = Some (rk, ri, file)"
  then obtain r1 r2 where s: "segment p = Some (rk, r1)" "segment r1 = Some (ri, r2)"
    "startsWith r2 (js ''/latest/'')" "dot_plus (drop 8 r2)" "file = drop 8 r2"
    by (auto simp: latestMatch_def split: option.splits if_splits)
  have len: "length (js ''/latest/'') = 8" by (simp add: js_def)
  have "r2 = js ''/latest/'' @ file"
    using startsWith_append [OF s(3)] s(5) unfolding len by simp
  then have "r2 = slash # js ''latest'' @ slash # file" by (simp add: js_def)
  moreover have "segment (slash # js ''latest'' @ slash # file) = Some (js ''latest'', slash # file)"
    by (rule segment_mid) (simp_all add: js_def)
  ultimately show ?thesis using s by (simp add: artifactMatch_def startsWith_def)
qed

lemma method_distinct:
  "js ''GET'' \<noteq> js ''OPTIONS''" "js ''GET'' \<noteq> js ''POST''" "js ''POST'' \<noteq> js ''OPTIONS''"
  by (simp_all add: js_def)

lemma root_no_match:
  assumes "path = js ''/'' \<or> path = [] \<or> path = js ''/catalog'' \<or> path = js ''/catalog/''"
  shows "registryMatch (apiPath path) = None" and "latestMatch (apiPath path) = None"
    and "artifactMatch (apiPath path) = None"
  using assms
  by (auto simp: apiPath_def startsWith_def js_def registryMatch_def latestMatch_def
      artifactMatch_def segment_def)

lemma health_no_match:
  "registryMatch (js ''/_health'') = None" "latestMatch (js ''/_health'') = None"
  "artifactMatch (js ''/_health'') = None"
  by (simp_all add: startsWith_def js_def registryMatch_def latestMatch_def
      artifactMatch_def segment_def)

lemma fetch_registry:
  assumes "http_method req = js ''GET''" and "registryMatch (apiPath (pathname req)) = Some rk"
  shows "fetch rt env req = registry_route env rk"
proof -
  let ?p = "pathname req"
  have "\<not> (?p = js ''/'' \<or> ?p = [] \<or> ?p = js ''/catalog'' \<or> ?p = js ''/catalog/'')"
    using root_no_match(1) [of ?p] assms(2) by auto
  moreover have "apiPath ?p \<noteq> js ''/_health''"
    using health_no_match(1) assms(2) by auto
  ultimately show ?thesis
    using assms method_distinct by (simp add: fetch_def Let_def)
qed

lemma fetch_latest:
  assumes "http_method req = js ''GET''" and "latestMatch (apiPath (pathname req)) = Some (rk, ri, file)"
  shows "fetch rt env req = latest_route rt (origin req) env rk ri file"
proof -
  let ?p = "pathname req"
  have "\<not> (?p = js ''/'' \<or> ?p = [] \<or> ?p = js ''/catalog'' \<or> ?p = js ''/catalog/'')"
    using root_no_match(2) [of ?p] assms(2) by auto
  moreover have "apiPath ?p \<noteq> js ''/_health''"
    using health_no_match(2) assms(2) by auto
  moreover have "registryMatch (apiPath ?p) = None"
    using registry_excludes [of "apiPath ?p"] assms(2) by (cases "registryMatch (apiPath ?p)") auto
  ultimately show ?thesis
    using assms method_distinct by (simp add: fetch_def Let_def)
qed

lemma fetch_artifact:
  assumes "http_method req = js ''GET''" and "latestMatch (apiPath (pathname req)) = None"
    and "artifactMatch (apiPath (pathname req)) = Some (rk, ri, rv, file)"
  shows "fetch rt env req = artifact_route env rk ri rv file"
proof -
  let ?p = "pathname req"
  have "\<not> (?p = js ''/'' \<or> ?p = [] \<or> ?p = js ''/catalog'' \<or> ?p = js ''/catalog/'')"
    using root_no_match(3) [of ?p] assms(3) by auto
  moreover have "apiPath ?p \<noteq> js ''/_health''"
    using health_no_match(3) assms(3) by auto
  moreover have "registryMatch (apiPath ?p) = None"
    using registry_excludes [of "apiPath ?p"] assms(3) by (cases "registryMatch (apiPath ?p)") auto
  ultimately show ?thesis
    using assms method_distinct by (simp add: fetch_def Let_def)
qed

lemma decode_E0: "decodeURIComponent (js ''%E0'') = Inl URIError"
proof -
  have "cont_octets 2 [] = None" by (simp add: numeral_2_eq_2)
  then show ?thesis by (simp add: js_def hexval_def)
qed


lemma decode_plain:
  "decodeURIComponent (js ''k'') = Inr (js ''k'')"
  "decodeURIComponent (js ''i'') = Inr (js ''i'')"
  "decodeURIComponent (js ''v'') = Inr (js ''v'')"
  "decodeURIComponent (js ''v%2Fextra'') = Inr (js ''v/extra'')"
  by (simp_all add: js_def hexval_def prepend_def)

lemma fetch_artifact_shape:
  assumes "http_method req = js ''GET''"
    and "apiPath (pathname req) = slash # rk @ slash # ri @ slash # rv @ slash # file"
    and "rk \<noteq> []" "slash \<notin> set rk" "ri \<noteq> []" "slash \<notin> set ri" "rv \<noteq> []" "slash \<notin> set rv"
    and "dot_plus file" "rv \<noteq> js ''latest''"
  shows "fetch rt env req = artifact_route env rk ri rv file"
proof -
  have m: "artifactMatch (apiPath (pathname req)) = Some (rk, ri, rv, file)"
    using assms by (simp add: artifact_shape)
  have l: "latestMatch (apiPath (pathname req)) = None"
  proof (cases "latestMatch (apiPath (pathname req))")
    case None
    then show ?thesis .
  next
    case (Some t)
    obtain k i f where t: "t = (k, i, f)" by (cases t)
    from Some t latest_is_artifact_shape [of "apiPath (pathname req)" k i f] m assms(10)
    show ?thesis by simp
  qed
  show ?thesis by (rule fetch_artifact [OF assms(1) l m])
qed

lemma sample_bucket_lookup:
  "CATALOG_BUCKET sample_env (js ''catalog/k/i/v/a%20b'') = None"
  "CATALOG_BUCKET sample_env (js ''catalog/k/i/v/a b'') = Some sample_object"
  "CATALOG_BUCKET sample_env (js ''catalog/tools/x/2.1.0/config.yaml'') = Some sample_object"
  by (simp_all add: sample_env_def js_def)

section \<open>Strings and headers: lemmas\<close>

lemma unat_of_char: "unat (of_char c :: 16 word) = of_char c"
proof -
  have "(of_char c :: nat) mod 256 = of_char c" by simp
  then have "(of_char c :: nat) < 256"
    by (metis mod_less_divisor zero_less_numeral)
  then have lt: "(of_char c :: nat) < 65536" by linarith
  have "unat (of_nat (of_char c) :: 16 word) = (of_char c :: nat) mod 65536"
    by (simp add: unat_of_nat)
  also have "\<dots> = of_char c" using lt by (rule mod_less)
  finally show ?thesis by (simp add: of_nat_of_char)
qed

lemma of_char_word_eq_iff: "(of_char c :: 16 word) = of_char d \<longleftrightarrow> c = d"
  by (metis unat_of_char of_char_eq_iff)

lemma js_eq_iff: "js a = js b \<longleftrightarrow> a = b"
  unfolding js_def
  by (rule inj_map_eq_map) (simp add: inj_def of_char_word_eq_iff)

lemma hget_hset: "hget (hset h k v) k' = (if lower k' = lower k then Some v else hget h k')"
  by (simp add: hget_def hset_def)

lemma hget_hset_opt:
  "hget (hset_opt h k vo) k' = (if lower k' = lower k \<and> vo \<noteq> None then vo else hget h k')"
  by (cases vo) (simp_all add: hset_opt_def hget_hset)

lemma hset_all_CORS:
  "hset_all h CORS_HEADERS =
     hset (hset (hset h (js ''Access-Control-Allow-Origin'') (js ''*''))
        (js ''Access-Control-Allow-Methods'') (js ''GET,POST,OPTIONS''))
        (js ''Access-Control-Allow-Headers'')
        (js ''Content-Type, Authorization, X-Hub-Signature-256'')"
  by (simp add: hset_all_def CORS_HEADERS_def)

lemma lower_names:
  "lower (js ''Access-Control-Allow-Origin'') = js ''access-control-allow-origin''"
  "lower (js ''Access-Control-Allow-Methods'') = js ''access-control-allow-methods''"
  "lower (js ''Access-Control-Allow-Headers'') = js ''access-control-allow-headers''"
  "lower (js ''content-type'') = js ''content-type''"
  "lower (js ''content-language'') = js ''content-language''"
  "lower (js ''content-disposition'') = js ''content-disposition''"
  "lower (js ''content-encoding'') = js ''content-encoding''"
  "lower (js ''cache-control'') = js ''cache-control''"
  "lower (js ''expires'') = js ''expires''"
  "lower (js ''etag'') = js ''etag''"
  "lower (js ''location'') = js ''location''"
  by (simp_all add: lower_def js_def)

lemma carries_cors_iff:
  "carries_cors h \<longleftrightarrow>
     hget h (js ''Access-Control-Allow-Origin'') = Some (js ''*'') \<and>
     hget h (js ''Access-Control-Allow-Methods'') = Some (js ''GET,POST,OPTIONS'') \<and>
     hget h (js ''Access-Control-Allow-Headers'')
       = Some (js ''Content-Type, Authorization, X-Hub-Signature-256'')"
  by (simp add: carries_cors_def CORS_HEADERS_def)

lemma cors_hset_all: "carries_cors (hset_all h CORS_HEADERS)"
  by (simp add: carries_cors_iff hset_all_CORS hget_hset lower_names js_eq_iff)

lemma cors_hset_content_type:
  "carries_cors h \<Longrightarrow> carries_cors (hset h (js ''content-type'') v)"
  by (simp add: carries_cors_iff hget_hset lower_names js_eq_iff)

lemma hset_all_append: "hset_all h (xs @ ys) = hset_all (hset_all h xs) ys"
  by (simp add: hset_all_def)

lemma cors_Headers_append: "carries_cors (Headers (xs @ CORS_HEADERS))"
  by (simp add: Headers_def hset_all_append cors_hset_all)

lemma cors_Headers_Cons: "carries_cors (Headers (x # CORS_HEADERS))"
  using cors_Headers_append [of "[x]"] by simp

lemma cors_Headers_Cons2: "carries_cors (Headers (x # y # CORS_HEADERS))"
  using cors_Headers_append [of "[x, y]"] by simp

lemma cors_Headers: "carries_cors (Headers CORS_HEADERS)"
  using cors_Headers_append [of "[]"] by simp

lemma cors_json: "carries_cors (headers (json d st))"
  by (simp add: json_def cors_Headers_Cons)

lemma cors_notFound: "carries_cors (headers notFound)"
  by (simp add: notFound_def cors_json)

lemma cors_serveRegistry: "carries_cors (headers (serveRegistry env kind))"
  by (simp add: serveRegistry_def Let_def cors_notFound cors_Headers_Cons2)

lemma cors_serveArtifact: "carries_cors (headers (serveArtifact env kind ident version file))"
  by (simp add: serveArtifact_def Let_def cors_notFound cors_hset_all cors_hset_content_type
      split: option.split)

lemma cors_serveLatestAlias:
  "serveLatestAlias rt orig env kind ident file = Inr r \<Longrightarrow> carries_cors (headers r)"
  by (auto simp: serveLatestAlias_def Let_def invalid_latest_def cors_notFound cors_json
      cors_Headers_Cons2 split: if_splits option.splits sum.splits)

lemma cors_handleIngest: "carries_cors (headers (handleIngest env))"
  by (simp add: handleIngest_def cors_json)

lemma cors_health: "carries_cors (headers (health rt env p))"
  by (simp add: health_def cors_json)

lemma cors_root: "carries_cors (headers root_redirect)"
  by (simp add: root_redirect_def cors_Headers_Cons2)

lemma cors_registry_route: "registry_route env rk = Inr r \<Longrightarrow> carries_cors (headers r)"
  by (auto simp: registry_route_def cors_serveRegistry split: sum.splits)

lemma cors_latest_route:
  "latest_route rt orig env rk ri file = Inr r \<Longrightarrow> carries_cors (headers r)"
  by (auto simp: latest_route_def split: sum.splits dest: cors_serveLatestAlias)

lemma cors_artifact_route:
  "artifact_route env rk ri rv file = Inr r \<Longrightarrow> carries_cors (headers r)"
  by (auto simp: artifact_route_def cors_serveArtifact split: sum.splits)

lemma cors_fetch: "fetch rt env req = Inr resp \<Longrightarrow> carries_cors (headers resp)"
  unfolding fetch_def Let_def
  by (auto split: if_splits option.splits prod.splits
      simp: cors_Headers cors_root cors_health cors_handleIngest cors_notFound
      dest: cors_registry_route cors_latest_route cors_artifact_route)

section \<open>URI component coding: lemmas\<close>

lemma unreserved_not_surrogate: "unreserved c \<Longrightarrow> \<not> is_lead c \<and> \<not> is_trail c"
  by (auto simp: unreserved_def is_lead_def is_trail_def Let_def)

lemma lead_not_trail: "is_lead c \<Longrightarrow> \<not> is_trail c"
  by (simp add: is_lead_def is_trail_def)

lemma prepend_Inr_iff: "(\<exists>e. prepend s r = Inr e) \<longleftrightarrow> (\<exists>e. r = Inr e)"
  by (cases r) (simp_all add: prepend_def)

lemma encode_succeeds_iff: "(\<exists>e. encodeURIComponent s = Inr e) \<longleftrightarrow> well_formed s"
proof (induction s rule: encodeURIComponent.induct)
  case 1
  show ?case by simp
next
  case (2 c cs)
  show ?case
  proof (cases "unreserved c")
    case True
    then show ?thesis
      using 2(1) unreserved_not_surrogate [of c] by (simp add: prepend_Inr_iff)
  next
    case u: False
    show ?thesis
    proof (cases "is_trail c")
      case True
      then show ?thesis using u lead_not_trail [of c] by auto
    next
      case t: False
      show ?thesis
      proof (cases "is_lead c")
        case True
        show ?thesis
        proof (cases cs)
          case Nil
          then show ?thesis using u t True by simp
        next
          case (Cons d ds)
          then show ?thesis
            using u t True 2(2) [of d ds] by (simp add: prepend_Inr_iff)
        qed
      next
        case False
        then show ?thesis using u t 2(3) by (simp add: prepend_Inr_iff)
      qed
    qed
  qed
qed

lemma hex_octet_set: "hex_octet s = Some (b, r) \<Longrightarrow> set r \<subseteq> set s"
  by (cases s rule: hex_octet.cases) (auto split: if_splits option.splits)

lemma cont_octets_set: "cont_octets n s = Some (bs, r) \<Longrightarrow> set r \<subseteq> set s"
proof (induction n arbitrary: s bs r)
  case 0
  then show ?case by simp
next
  case (Suc n)
  then show ?case
    by (fastforce split: option.splits prod.splits dest: hex_octet_set)
qed

lemma ascii_subset: "ascii s \<Longrightarrow> set r \<subseteq> set s \<Longrightarrow> ascii r"
  by (auto simp: ascii_def list_all_iff)

lemma ascii_Cons: "ascii (c # cs) \<longleftrightarrow> unat c < 128 \<and> ascii cs"
  by (simp add: ascii_def)

lemma unat_of_nat_16: "n < 65536 \<Longrightarrow> unat (of_nat n :: 16 word) = n"
  by (simp add: unat_of_nat)

lemma wf_small: "n < 55296 \<Longrightarrow> well_formed ((of_nat n :: 16 word) # k) = well_formed k"
  by (simp add: is_lead_def is_trail_def unat_of_nat_16)

lemma wf_ascii_char: "unat c < 128 \<Longrightarrow> well_formed (c # k) = well_formed k"
  by (simp add: is_lead_def is_trail_def)

lemma utf8_code_point_range:
  "utf8_code_point B bs = Some cp \<Longrightarrow> cp \<le> 1114111 \<and> \<not> (55296 \<le> cp \<and> cp \<le> 57343)"
  by (auto simp: utf8_code_point_def Let_def split: if_splits)

lemma wf_utf16:
  assumes "cp \<le> 1114111" "\<not> (55296 \<le> cp \<and> cp \<le> 57343)"
  shows "well_formed (utf16_encode cp @ k) = well_formed k"
proof (cases "cp < 65536")
  case True
  then have "unat (of_nat cp :: 16 word) = cp" by (rule unat_of_nat_16)
  then show ?thesis using True assms by (auto simp: utf16_encode_def is_lead_def is_trail_def)
next
  case False
  let ?h = "55296 + (cp - 65536) div 1024"
  let ?l = "56320 + (cp - 65536) mod 1024"
  have "(cp - 65536) div 1024 \<le> 1023" using assms(1) by simp
  then have h: "55296 \<le> ?h" "?h \<le> 56319" by simp_all
  have l: "56320 \<le> ?l" "?l \<le> 57343" by simp_all
  have uh: "unat (of_nat ?h :: 16 word) = ?h" using h by (intro unat_of_nat_16) simp
  have ul: "unat (of_nat ?l :: 16 word) = ?l" using l by (intro unat_of_nat_16) simp
  have "is_lead (of_nat ?h)" using h uh by (simp add: is_lead_def)
  moreover have "is_trail (of_nat ?l)" using l ul by (simp add: is_trail_def)
  ultimately show ?thesis using False by (simp add: utf16_encode_def)
qed

lemma prepend_Inr: "prepend s r = Inr k \<Longrightarrow> \<exists>t. r = Inr t \<and> k = s @ t"
  by (cases r) (simp_all add: prepend_def)

lemma decode_ascii_well_formed:
  "ascii s \<Longrightarrow> decodeURIComponent s = Inr k \<Longrightarrow> well_formed k"
proof (induction s arbitrary: k rule: decodeURIComponent.induct)
  case 1
  then show ?case by simp
next
  case (2 c cs)
  show ?case
  proof (cases "c = percent")
    case False
    with 2(5) obtain t where t: "decodeURIComponent cs = Inr t" "k = c # t"
      by (auto dest: prepend_Inr)
    have "unat c < 128" "ascii cs" using 2(4) by (simp_all add: ascii_Cons)
    then show ?thesis using 2(1) [OF False _ t(1)] t(2) by (simp only: wf_ascii_char)
  next
    case True
    with 2(5) obtain B r where h: "hex_octet (c # cs) = Some (B, r)"
      by (auto split: option.splits)
    have ar: "ascii r" using 2(4) hex_octet_set [OF h] by (rule ascii_subset)
    show ?thesis
    proof (cases "B < 128")
      case b: True
      with 2(5) True h obtain t where t: "decodeURIComponent r = Inr t" "k = of_nat B # t"
        by (auto dest: prepend_Inr)
      have "well_formed t" using 2(2) True h b ar t(1) by simp
      moreover have "B < 55296" using b by simp
      ultimately show ?thesis using t(2) by (simp only: wf_small)
    next
      case b: False
      let ?n = "if B < 224 then 1 else if B < 240 then 2 else (3::nat)"
      from 2(5) True h b have nb: "\<not> (B < 192 \<or> 248 \<le> B)"
        by (auto split: if_splits)
      with 2(5) True h b obtain bs r' where c: "cont_octets ?n r = Some (bs, r')"
        by (auto split: option.splits)
      with 2(5) True h b nb obtain cp where u: "utf8_code_point B bs = Some cp"
        by (auto split: option.splits)
      with 2(5) True h b nb c obtain t where t: "decodeURIComponent r' = Inr t"
        "k = utf16_encode cp @ t"
        by (auto dest: prepend_Inr)
      have ar': "ascii r'" using ar cont_octets_set [OF c] by (rule ascii_subset)
      have "well_formed t"
        using 2(3) True h b nb c u ar' t(1) by auto
      moreover have "well_formed (utf16_encode cp @ t) = well_formed t"
        using utf8_code_point_range [OF u] by (intro wf_utf16) simp_all
      ultimately show ?thesis using t(2) by simp
    qed
  qed
qed

section \<open>The resolvers: lemmas\<close>

lemma hget_Headers_location:
  "hget (Headers ((js ''location'', l) # (js ''cache-control'', c) # CORS_HEADERS)) (js ''location'')
     = Some l"
  "hget (Headers ((js ''location'', l) # (js ''cache-control'', c) # CORS_HEADERS))
     (js ''cache-control'') = Some c"
proof -
  have "Headers ((js ''location'', l) # (js ''cache-control'', c) # CORS_HEADERS)
      = hset_all (hset (hset Map.empty (js ''location'') l) (js ''cache-control'') c) CORS_HEADERS"
    by (simp add: Headers_def hset_all_def)
  then show
    "hget (Headers ((js ''location'', l) # (js ''cache-control'', c) # CORS_HEADERS))
       (js ''location'') = Some l"
    "hget (Headers ((js ''location'', l) # (js ''cache-control'', c) # CORS_HEADERS))
       (js ''cache-control'') = Some c"
    by (simp_all add: hset_all_CORS hget_hset lower_names js_eq_iff)
qed

lemma serveLatestAlias_redirect:
  assumes "CATALOG_INDEX env (keyJoin [js ''catalog'', kind, ident, js ''latest.json'']) = Some text"
    and "text \<noteq> []" and "JSON_parse rt text = Some (JObj fs)"
    and "map_of fs (js ''version'') = Some (JStr v)" and "v \<noteq> []"
    and "encodeURIComponent kind = Inr ek" and "encodeURIComponent ident = Inr ei"
    and "encodeURIComponent v = Inr ev"
  shows "serveLatestAlias rt orig env kind ident file =
     Inr \<lparr>status = 302,
          headers = Headers
            ([(js ''location'',
               URL_href rt (slash # ek @ slash # ei @ slash # ev @ slash # file) orig),
              (js ''cache-control'', js ''public, max-age=30'')] @ CORS_HEADERS),
          body = NoBody\<rparr>"
  using assms by (simp add: serveLatestAlias_def Let_def falsy_def to_string_def)

lemma ascii_apiPath: "ascii p \<Longrightarrow> ascii (apiPath p)"
  by (auto simp: apiPath_def ascii_def list_all_iff dest: in_set_dropD)

lemma sample_index_lookup:
  "CATALOG_INDEX sample_env (js ''catalog/tools/x/latest.json'') = Some pointer_2_1_0"
  "CATALOG_INDEX sample_env (js ''catalog/tools/n/latest.json'') = Some (js ''null'')"
  "CATALOG_INDEX sample_env (js ''catalog/tools/e/latest.json'') = Some (js ''{}'')"
  "CATALOG_INDEX sample_env (js ''catalog/tools/s/latest.json'') = Some pointer_surrogate"
  "CATALOG_INDEX sample_env (js ''catalog/tools/z/latest.json'') = Some []"
  "CATALOG_INDEX sample_env (js ''catalog/catalog/x/latest.json'') = Some pointer_2_1_0"
  "CATALOG_INDEX sample_env (js ''catalog/tools/absent/latest.json'') = None"
  by (simp_all add: sample_env_def js_eq_iff)

lemma sample_parse:
  "JSON_parse sample_runtime pointer_2_1_0 = Some (JObj [(js ''version'', JStr (js ''2.1.0''))])"
  "JSON_parse sample_runtime (js ''null'') = Some JNull"
  "JSON_parse sample_runtime (js ''{}'') = Some (JObj [])"
  "JSON_parse sample_runtime pointer_surrogate = Some (JObj [(js ''version'', JStr [0xD800])])"
  by (simp_all add: sample_runtime_def pointer_2_1_0_def pointer_surrogate_def js_def)

lemma latest_keys:
  "keyJoin [js ''catalog'', js ''tools'', js ''x'', js ''latest.json''] = js ''catalog/tools/x/latest.json''"
  "keyJoin [js ''catalog'', js ''tools'', js ''n'', js ''latest.json''] = js ''catalog/tools/n/latest.json''"
  "keyJoin [js ''catalog'', js ''tools'', js ''s'', js ''latest.json''] = js ''catalog/tools/s/latest.json''"
  "keyJoin [js ''catalog'', js ''tools'', js ''z'', js ''latest.json''] = js ''catalog/tools/z/latest.json''"
  "keyJoin [js ''catalog'', js ''tools'', js ''e'', js ''latest.json''] = js ''catalog/tools/e/latest.json''"
  "keyJoin [js ''catalog'', js ''catalog'', js ''x'', js ''latest.json''] = js ''catalog/catalog/x/latest.json''"
  by (simp_all add: keyJoin_def js_def replace_backslashes_def strip_leading_slash_def)

lemma decode_tools:
  "decodeURIComponent (js ''tools'') = Inr (js ''tools'')"
  "decodeURIComponent (js ''x'') = Inr (js ''x'')"
  "decodeURIComponent (js ''n'') = Inr (js ''n'')"
  "decodeURIComponent (js ''s'') = Inr (js ''s'')"
  "decodeURIComponent (js ''z'') = Inr (js ''z'')"
  "decodeURIComponent (js ''e'') = Inr (js ''e'')"
  by (simp_all add: js_def prepend_def)

lemma encode_tools:
  "encodeURIComponent (js ''tools'') = Inr (js ''tools'')"
  "encodeURIComponent (js ''x'') = Inr (js ''x'')"
  "encodeURIComponent (js ''s'') = Inr (js ''s'')"
  "encodeURIComponent (js ''2.1.0'') = Inr (js ''2.1.0'')"
  by (simp_all add: js_def prepend_def unreserved_def)

lemma latest_alias_error_responses:
  assumes "key = keyJoin [js ''catalog'', kind, ident, js ''latest.json'']"
  shows "falsy (CATALOG_INDEX env key) \<Longrightarrow>
      serveLatestAlias rt orig env kind ident file = Inr notFound"
    and "CATALOG_INDEX env key = Some text \<Longrightarrow> text \<noteq> [] \<Longrightarrow> JSON_parse rt text = None \<Longrightarrow>
      serveLatestAlias rt orig env kind ident file = Inr (invalid_latest key)"
    and "CATALOG_INDEX env key = Some text \<Longrightarrow> text \<noteq> [] \<Longrightarrow> JSON_parse rt text = Some j \<Longrightarrow>
      get_version j = Inr None \<Longrightarrow>
      serveLatestAlias rt orig env kind ident file = Inr (invalid_latest key)"
    and "status (invalid_latest key) = 500" and "status notFound = 404"
  using assms
  by (simp_all add: serveLatestAlias_def Let_def falsy_def invalid_latest_def notFound_def json_def)

lemma hget_writeHttpMetadata_content_type:
  "hget (writeHttpMetadata obj (\<lambda>x. None)) (js ''content-type'') = contentType (httpMetadata obj)"
  by (cases "contentType (httpMetadata obj)")
     (simp_all add: writeHttpMetadata_def Let_def hget_hset_opt lower_names js_eq_iff,
      simp_all add: hget_def)

lemma hget_artifact_headers:
  assumes "CATALOG_BUCKET env (keyJoin [js ''catalog'', kind, ident, version, file]) = Some obj"
  shows "hget (headers (serveArtifact env kind ident version file)) (js ''etag'') = Some (httpEtag obj)"
    and "hget (headers (serveArtifact env kind ident version file)) (js ''cache-control'')
          = Some (js ''public, max-age=31536000, immutable'')"
    and "hget (headers (serveArtifact env kind ident version file)) (js ''content-type'')
          = Some (if falsy (contentType (httpMetadata obj)) then
                    (if endsWith file (js ''.json'') then js ''application/json; charset=utf-8''
                     else if endsWith file (js ''.yaml'') \<or> endsWith file (js ''.yml'')
                     then js ''text/yaml; charset=utf-8''
                     else js ''application/octet-stream'')
                  else the (contentType (httpMetadata obj)))"
proof -
  let ?h3 = "hset_all (hset (hset (writeHttpMetadata obj (\<lambda>x. None)) (js ''etag'') (httpEtag obj))
      (js ''cache-control'') (js ''public, max-age=31536000, immutable'')) CORS_HEADERS"
  have ct: "hget ?h3 (js ''content-type'') = contentType (httpMetadata obj)"
    by (simp add: hset_all_CORS hget_hset lower_names js_eq_iff
        hget_writeHttpMetadata_content_type)
  have et: "hget ?h3 (js ''etag'') = Some (httpEtag obj)"
    by (simp add: hset_all_CORS hget_hset lower_names js_eq_iff)
  have cc: "hget ?h3 (js ''cache-control'') = Some (js ''public, max-age=31536000, immutable'')"
    by (simp add: hset_all_CORS hget_hset lower_names js_eq_iff)
  show "hget (headers (serveArtifact env kind ident version file)) (js ''etag'') = Some (httpEtag obj)"
    using assms et
    by (simp add: serveArtifact_def Let_def hget_hset lower_names js_eq_iff)
  show "hget (headers (serveArtifact env kind ident version file)) (js ''cache-control'')
          = Some (js ''public, max-age=31536000, immutable'')"
    using assms cc
    by (simp add: serveArtifact_def Let_def hget_hset lower_names js_eq_iff)
  show "hget (headers (serveArtifact env kind ident version file)) (js ''content-type'')
          = Some (if falsy (contentType (httpMetadata obj)) then
                    (if endsWith file (js ''.json'') then js ''application/json; charset=utf-8''
                     else if endsWith file (js ''.yaml'') \<or> endsWith file (js ''.yml'')
                     then js ''text/yaml; charset=utf-8''
                     else js ''application/octet-stream'')
                  else the (contentType (httpMetadata obj)))"
    using assms ct
    by (auto simp: serveArtifact_def Let_def hget_hset falsy_def split: option.splits)
qed

section \<open>The latest alias redirects to the canonical versioned address\<close>

text \<open>
  C1 (as amended). Take a GET request whose path, after the legacy prefix is stripped,
  is \<open>/<rk>/<ri>/latest/<file>\<close>, where the raw segments decode to \<open>kind\<close> and \<open>id\<close>
  (the path of a parsed URL is ASCII; \<open>file\<close> is what \<open>.+\<close> matches, a non-empty text
  without line terminators). If the pointer key
  \<open>keyJoin("catalog", kind, id, "latest.json")\<close> holds a text that parses to an object
  whose \<open>version\<close> is a non-empty, well-formed string \<open>v\<close>, then \<open>encodeURIComponent\<close>
  accepts \<open>kind\<close>, \<open>id\<close> and \<open>v\<close>, and the response is a 302 with no body whose location is
  the path \<open>/<enc(kind)>/<enc(id)>/<enc(v)>/<file>\<close>, without the legacy prefix, resolved
  against the origin of the request, with the cache directive \<open>public, max-age=30\<close>.
  (The text is assumed not empty, as every text that parses is.)
\<close>

theorem latest_alias_redirect:
  assumes "http_method req = js ''GET''"
    and "ascii (pathname req)"
    and "apiPath (pathname req) = slash # rk @ slash # ri @ js ''/latest/'' @ file"
    and "rk \<noteq> []" and "slash \<notin> set rk" and "ri \<noteq> []" and "slash \<notin> set ri"
    and "dot_plus file"
    and "decodeURIComponent rk = Inr kind" and "decodeURIComponent ri = Inr ident"
    and "CATALOG_INDEX env (keyJoin [js ''catalog'', kind, ident, js ''latest.json'']) = Some text"
    and "text \<noteq> []" and "JSON_parse rt text = Some (JObj fs)"
    and "map_of fs (js ''version'') = Some (JStr v)" and "v \<noteq> []"
    and "well_formed v"
  shows "\<exists>ek ei ev resp.
     encodeURIComponent kind = Inr ek \<and> encodeURIComponent ident = Inr ei \<and>
     encodeURIComponent v = Inr ev \<and>
     fetch rt env req = Inr resp \<and> status resp = 302 \<and> body resp = NoBody \<and>
     hget (headers resp) (js ''location'')
       = Some (URL_href rt (slash # ek @ slash # ei @ slash # ev @ slash # file) (origin req)) \<and>
     hget (headers resp) (js ''cache-control'') = Some (js ''public, max-age=30'')"
proof -
  have a: "ascii (slash # rk @ slash # ri @ js ''/latest/'' @ file)"
    using assms(2,3) ascii_apiPath [of "pathname req"] by simp
  have "ascii rk" "ascii ri"
    using a by (auto simp: ascii_def)
  then have "well_formed kind" "well_formed ident"
    using assms(9,10) by (auto dest: decode_ascii_well_formed)
  then obtain ek ei ev where e: "encodeURIComponent kind = Inr ek"
    "encodeURIComponent ident = Inr ei" "encodeURIComponent v = Inr ev"
    using assms(16) encode_succeeds_iff by blast
  have "latestMatch (apiPath (pathname req)) = Some (rk, ri, file)"
    using assms(3-8) by (simp add: latest_shape)
  then have "fetch rt env req = latest_route rt (origin req) env rk ri file"
    using assms(1) by (intro fetch_latest)
  then have s: "fetch rt env req = serveLatestAlias rt (origin req) env kind ident file"
    using assms(9,10) by (simp add: latest_route_def)
  let ?loc = "URL_href rt (slash # ek @ slash # ei @ slash # ev @ slash # file) (origin req)"
  let ?resp = "\<lparr>status = 302,
      headers = Headers
        ((js ''location'', ?loc) # (js ''cache-control'', js ''public, max-age=30'')
         # CORS_HEADERS),
      body = NoBody\<rparr>"
  have f: "fetch rt env req = Inr ?resp"
    using s serveLatestAlias_redirect [OF assms(11-15) e] by simp
  have "status ?resp = 302" "body ?resp = NoBody"
    "hget (headers ?resp) (js ''location'') = Some ?loc"
    "hget (headers ?resp) (js ''cache-control'') = Some (js ''public, max-age=30'')"
    by (simp_all add: hget_Headers_location)
  with e f show ?thesis by blast
qed

text \<open>
  The instance of the specification, arriving on the legacy-prefixed path: \<open>kind = tools\<close>,
  \<open>id = x\<close>, \<open>file = pkg.tar.gz\<close>, pointer \<open>{"version":"2.1.0"}\<close>; the location is
  \<open>/tools/x/2.1.0/pkg.tar.gz\<close> against the origin.
\<close>

theorem latest_alias_redirect_witness:
  "\<exists>resp. fetch sample_runtime sample_env
       (sample_request ''GET'' ''/catalog/tools/x/latest/pkg.tar.gz'') = Inr resp \<and>
     status resp = 302 \<and> body resp = NoBody \<and>
     hget (headers resp) (js ''location'')
       = Some (URL_href sample_runtime (js ''/tools/x/2.1.0/pkg.tar.gz'') (js ''https://okham.io'')) \<and>
     hget (headers resp) (js ''cache-control'') = Some (js ''public, max-age=30'')"
proof -
  let ?req = "sample_request ''GET'' ''/catalog/tools/x/latest/pkg.tar.gz''"
  have p: "pointer_2_1_0 \<noteq> []" by (simp add: pointer_2_1_0_def js_def)
  have s: "apiPath (pathname ?req) = slash # js ''tools'' @ slash # js ''x'' @ js ''/latest/'' @ js ''pkg.tar.gz''"
    by (simp add: sample_request_def apiPath_def startsWith_def js_def)
  have w: "well_formed (js ''2.1.0'')"
    by (simp add: js_def is_lead_def is_trail_def)
  have a: "ascii (pathname ?req)"
    by (simp add: sample_request_def ascii_def js_def)
  have "\<exists>ek ei ev resp.
     encodeURIComponent (js ''tools'') = Inr ek \<and> encodeURIComponent (js ''x'') = Inr ei \<and>
     encodeURIComponent (js ''2.1.0'') = Inr ev \<and>
     fetch sample_runtime sample_env ?req = Inr resp \<and> status resp = 302 \<and> body resp = NoBody \<and>
     hget (headers resp) (js ''location'')
       = Some (URL_href sample_runtime (slash # ek @ slash # ei @ slash # ev @ slash # js ''pkg.tar.gz'')
           (origin ?req)) \<and>
     hget (headers resp) (js ''cache-control'') = Some (js ''public, max-age=30'')"
  proof (rule latest_alias_redirect [OF _ a s _ _ _ _ _ decode_tools(1,2) _ p sample_parse(1) _ _ w])
    show "http_method ?req = js ''GET''" by (simp add: sample_request_def)
    show "js ''tools'' \<noteq> []" "slash \<notin> set (js ''tools'')" "js ''x'' \<noteq> []"
      "slash \<notin> set (js ''x'')" "js ''2.1.0'' \<noteq> []"
      by (simp_all add: js_def)
    show "dot_plus (js ''pkg.tar.gz'')"
      by (simp add: dot_plus_def line_terminator_def js_def)
    show "CATALOG_INDEX sample_env
        (keyJoin [js ''catalog'', js ''tools'', js ''x'', js ''latest.json'']) = Some pointer_2_1_0"
      by (simp add: latest_keys sample_index_lookup)
    show "map_of [(js ''version'', JStr (js ''2.1.0''))] (js ''version'') = Some (JStr (js ''2.1.0''))"
      by simp
  qed
  then show ?thesis
    by (auto simp: encode_tools sample_request_def) (simp add: js_def)
qed

text \<open>
  The claim as stated fails in two ways. A pointer whose version is the non-empty string
  made of one unpaired surrogate (the text \<open>{"version":"\ud800"}\<close>) makes
  \<open>encodeURIComponent\<close> throw, and the handler raises \<open>URIError\<close> instead of redirecting.
  And the request \<open>GET /catalog/x/latest/pkg.tar.gz\<close>, read without legacy prefix as
  kind \<open>catalog\<close> and id \<open>x\<close>, is answered 404 although the pointer
  \<open>catalog/catalog/x/latest.json\<close> is valid: the first segment is stripped as the legacy
  prefix.
\<close>

theorem latest_alias_redirect_fails:
  "CATALOG_INDEX sample_env (js ''catalog/tools/s/latest.json'') = Some pointer_surrogate \<and>
   JSON_parse sample_runtime pointer_surrogate = Some (JObj [(js ''version'', JStr [0xD800])]) \<and>
   fetch sample_runtime sample_env (sample_request ''GET'' ''/tools/s/latest/pkg.tar.gz'')
     = Inl URIError \<and>
   CATALOG_INDEX sample_env (js ''catalog/catalog/x/latest.json'') = Some pointer_2_1_0 \<and>
   JSON_parse sample_runtime pointer_2_1_0 = Some (JObj [(js ''version'', JStr (js ''2.1.0''))]) \<and>
   fetch sample_runtime sample_env (sample_request ''GET'' ''/catalog/x/latest/pkg.tar.gz'')
     = Inr notFound \<and>
   status notFound = 404"
proof -
  let ?req = "sample_request ''GET'' ''/tools/s/latest/pkg.tar.gz''"
  have "latestMatch (apiPath (pathname ?req)) = Some (js ''tools'', js ''s'', js ''pkg.tar.gz'')"
    by (simp add: sample_request_def apiPath_def startsWith_def js_def latestMatch_def
        segment_def dot_plus_def line_terminator_def)
  then have "fetch sample_runtime sample_env ?req
      = latest_route sample_runtime (origin ?req) sample_env (js ''tools'') (js ''s'') (js ''pkg.tar.gz'')"
    by (intro fetch_latest) (simp_all add: sample_request_def)
  moreover have "pointer_surrogate \<noteq> []" by (simp add: pointer_surrogate_def)
  moreover have "encodeURIComponent [0xD800] = Inl URIError"
    by (simp add: unreserved_def is_trail_def is_lead_def)
  ultimately have a: "fetch sample_runtime sample_env ?req = Inl URIError"
    by (simp add: latest_route_def decode_tools serveLatestAlias_def Let_def latest_keys
        sample_index_lookup sample_parse falsy_def encode_tools to_string_def)
  have b: "fetch sample_runtime sample_env (sample_request ''GET'' ''/catalog/x/latest/pkg.tar.gz'')
      = Inr notFound"
    by (simp add: fetch_def sample_request_def js_def apiPath_def startsWith_def
        registryMatch_def latestMatch_def artifactMatch_def segment_def)
  have "status notFound = 404" by (simp add: notFound_def json_def)
  with a b show ?thesis using sample_index_lookup(4,6) sample_parse(1,4) by simp
qed

section \<open>A missing alias and a corrupt alias\<close>

text \<open>
  C2. The resolver answers 404 for an absent pointer and a structured 500
  \<open>invalid_latest\<close> for a text that does not parse or that parses to an object without
  \<open>version\<close> (lemma \<open>latest_alias_error_responses\<close>; the pointer \<open>{}\<close> below). But the
  stored text \<open>null\<close> parses to \<open>null\<close>, a value without a version field, and reading
  \<open>latest.version\<close> outside the \<open>try\<close> throws a \<open>TypeError\<close>: the handler raises instead of
  answering 500. A stored empty string, which is not JSON, is taken for a missing key by
  \<open>!latestJson\<close> and answered 404.
\<close>

theorem null_pointer_raises:
  "CATALOG_INDEX sample_env (js ''catalog/tools/n/latest.json'') = Some (js ''null'') \<and>
   JSON_parse sample_runtime (js ''null'') = Some JNull \<and>
   fetch sample_runtime sample_env (sample_request ''GET'' ''/tools/n/latest/pkg.tar.gz'')
     = Inl TypeError \<and>
   CATALOG_INDEX sample_env (js ''catalog/tools/z/latest.json'') = Some [] \<and>
   fetch sample_runtime sample_env (sample_request ''GET'' ''/tools/z/latest/pkg.tar.gz'')
     = Inr notFound \<and>
   fetch sample_runtime sample_env (sample_request ''GET'' ''/tools/e/latest/pkg.tar.gz'')
     = Inr (invalid_latest (js ''catalog/tools/e/latest.json''))"
proof -
  let ?n = "sample_request ''GET'' ''/tools/n/latest/pkg.tar.gz''"
  let ?z = "sample_request ''GET'' ''/tools/z/latest/pkg.tar.gz''"
  let ?e = "sample_request ''GET'' ''/tools/e/latest/pkg.tar.gz''"
  have "latestMatch (apiPath (pathname ?n)) = Some (js ''tools'', js ''n'', js ''pkg.tar.gz'')"
    by (simp add: sample_request_def apiPath_def startsWith_def js_def latestMatch_def
        segment_def dot_plus_def line_terminator_def)
  then have "fetch sample_runtime sample_env ?n
      = latest_route sample_runtime (origin ?n) sample_env (js ''tools'') (js ''n'') (js ''pkg.tar.gz'')"
    by (intro fetch_latest) (simp_all add: sample_request_def)
  moreover have "js ''null'' \<noteq> []" by (simp add: js_def)
  ultimately have n: "fetch sample_runtime sample_env ?n = Inl TypeError"
    by (simp add: latest_route_def decode_tools serveLatestAlias_def Let_def latest_keys
        sample_index_lookup sample_parse falsy_def)
  have "latestMatch (apiPath (pathname ?z)) = Some (js ''tools'', js ''z'', js ''pkg.tar.gz'')"
    by (simp add: sample_request_def apiPath_def startsWith_def js_def latestMatch_def
        segment_def dot_plus_def line_terminator_def)
  then have "fetch sample_runtime sample_env ?z
      = latest_route sample_runtime (origin ?z) sample_env (js ''tools'') (js ''z'') (js ''pkg.tar.gz'')"
    by (intro fetch_latest) (simp_all add: sample_request_def)
  then have z: "fetch sample_runtime sample_env ?z = Inr notFound"
    by (simp add: latest_route_def decode_tools serveLatestAlias_def Let_def latest_keys
        sample_index_lookup falsy_def)
  have "latestMatch (apiPath (pathname ?e)) = Some (js ''tools'', js ''e'', js ''pkg.tar.gz'')"
    by (simp add: sample_request_def apiPath_def startsWith_def js_def latestMatch_def
        segment_def dot_plus_def line_terminator_def)
  then have "fetch sample_runtime sample_env ?e
      = latest_route sample_runtime (origin ?e) sample_env (js ''tools'') (js ''e'') (js ''pkg.tar.gz'')"
    by (intro fetch_latest) (simp_all add: sample_request_def)
  moreover have "js ''{}'' \<noteq> []" by (simp add: js_def)
  ultimately have e: "fetch sample_runtime sample_env ?e
      = Inr (invalid_latest (js ''catalog/tools/e/latest.json''))"
    by (simp add: latest_route_def decode_tools serveLatestAlias_def Let_def latest_keys
        sample_index_lookup sample_parse falsy_def)
  from n z e show ?thesis using sample_index_lookup(2,5) sample_parse(2) by simp
qed

section \<open>Key canonicalization is total, canonical and idempotent\<close>

text \<open>
  C3. \<open>keyJoin\<close> is total (a function of HOL, with its termination proved). For every
  list of segments the joined key contains no backslash, does not start with a slash and
  has no two slashes in a row; it is the joined text with every run of separators
  (slashes and backslashes) replaced by one slash and one leading slash removed; joining
  it again gives the same key, and every key that is already canonical is a fixed point.
\<close>

theorem keyJoin_canonical_idempotent:
  "backslash \<notin> set (keyJoin parts) \<and> \<not> leading_slash (keyJoin parts) \<and>
   \<not> has_double_slash (keyJoin parts) \<and>
   keyJoin parts = strip_leading_slash (squeeze_separators (join parts)) \<and>
   keyJoin [keyJoin parts] = keyJoin parts \<and>
   (canonical_key k \<longrightarrow> keyJoin [k] = k)"
proof -
  have c: "canonical_key (keyJoin parts)" by (rule keyJoin_canonical_key)
  then have "keyJoin [keyJoin parts] = keyJoin parts" by (rule keyJoin_fixes_canonical)
  with c show ?thesis
    using keyJoin_squeeze [of parts] keyJoin_fixes_canonical [of k]
    by (simp add: canonical_key_def)
qed

theorem keyJoin_canonical_idempotent_witness:
  "canonical_key (js ''catalog/a/b/c'') \<and>
   keyJoin [js ''catalog/a/b/c''] = js ''catalog/a/b/c'' \<and>
   keyJoin [js ''catalog'', js ''//a'', [backslash, backslash], js ''b/'', js ''/c'']
     = js ''catalog/a/b/c'' \<and>
   keyJoin [js ''catalog/a/b/c/''] = js ''catalog/a/b/c/''"
proof -
  have c: "canonical_key (js ''catalog/a/b/c'')"
    by (simp add: canonical_key_def js_def)
  have "keyJoin [js ''catalog/a/b/c''] = js ''catalog/a/b/c''"
    using keyJoin_canonical_idempotent [of "[]" "js ''catalog/a/b/c''"] c by blast
  moreover have "keyJoin [js ''catalog'', js ''//a'', [backslash, backslash], js ''b/'', js ''/c'']
     = js ''catalog/a/b/c''"
    by (simp add: keyJoin_def js_def replace_backslashes_def strip_leading_slash_def)
  moreover have "keyJoin [js ''catalog/a/b/c/''] = js ''catalog/a/b/c/''"
    by (simp add: keyJoin_def js_def replace_backslashes_def strip_leading_slash_def)
  ultimately show ?thesis using c by simp
qed

section \<open>The artifact response\<close>

text \<open>
  C4 (as amended). Take a GET request whose path, after the legacy prefix is stripped,
  is \<open>/<rk>/<ri>/<rv>/<file>\<close> with a third segment other than \<open>latest\<close>, where the raw
  segments decode to \<open>kind\<close>, \<open>id\<close> and \<open>version\<close> (segments not empty and without a slash,
  \<open>file\<close> not empty and without line terminators). The response of \<open>fetch\<close> is the one of
  \<open>serveArtifact\<close>, which reads the key \<open>keyJoin("catalog", kind, id, version, file)\<close> of
  the blob store. With no object there the response is the 404 \<open>not_found\<close>. With an
  object, the response is a 200 with the object's bytes, its \<open>etag\<close> is the store's, its
  cache directive is \<open>public, max-age=31536000, immutable\<close>, and its content type is the
  stored one when the store provides one (a non-empty string); otherwise it is the
  fallback, chosen in order: \<open>.json\<close>, then \<open>.yaml\<close> or \<open>.yml\<close>, then the octet stream.
  The key is the literal \<open>catalog/<kind>/<id>/<version>/<file>\<close> when \<open>kind\<close>, \<open>id\<close> and
  \<open>version\<close> are not empty and have no separator and \<open>file\<close> is canonical.
\<close>

theorem artifact_request_response:
  assumes "http_method req = js ''GET''"
    and "apiPath (pathname req) = slash # rk @ slash # ri @ slash # rv @ slash # file"
    and "rk \<noteq> []" and "slash \<notin> set rk" and "ri \<noteq> []" and "slash \<notin> set ri"
    and "rv \<noteq> []" and "slash \<notin> set rv" and "rv \<noteq> js ''latest''" and "dot_plus file"
    and "decodeURIComponent rk = Inr kind" and "decodeURIComponent ri = Inr ident"
    and "decodeURIComponent rv = Inr version"
  shows "fetch rt env req = Inr (serveArtifact env kind ident version file) \<and>
   (CATALOG_BUCKET env (keyJoin [js ''catalog'', kind, ident, version, file]) = None \<longrightarrow>
      fetch rt env req = Inr notFound \<and> status notFound = 404) \<and>
   (CATALOG_BUCKET env (keyJoin [js ''catalog'', kind, ident, version, file]) = Some obj \<longrightarrow>
      (\<exists>resp. fetch rt env req = Inr resp \<and> status resp = 200 \<and>
         body resp = Stream (object_body obj) \<and>
         hget (headers resp) (js ''etag'') = Some (httpEtag obj) \<and>
         hget (headers resp) (js ''cache-control'')
           = Some (js ''public, max-age=31536000, immutable'') \<and>
         (contentType (httpMetadata obj) = Some ct \<and> ct \<noteq> [] \<longrightarrow>
            hget (headers resp) (js ''content-type'') = Some ct) \<and>
         (contentType (httpMetadata obj) = None \<or> contentType (httpMetadata obj) = Some [] \<longrightarrow>
            hget (headers resp) (js ''content-type'')
              = Some (if endsWith file (js ''.json'') then js ''application/json; charset=utf-8''
                      else if endsWith file (js ''.yaml'') \<or> endsWith file (js ''.yml'')
                      then js ''text/yaml; charset=utf-8''
                      else js ''application/octet-stream'')))) \<and>
   (kind \<noteq> [] \<and> slash \<notin> set kind \<and> backslash \<notin> set kind \<and>
    ident \<noteq> [] \<and> slash \<notin> set ident \<and> backslash \<notin> set ident \<and>
    version \<noteq> [] \<and> slash \<notin> set version \<and> backslash \<notin> set version \<and>
    canonical_key file \<longrightarrow>
      keyJoin [js ''catalog'', kind, ident, version, file]
        = js ''catalog/'' @ kind @ slash # ident @ slash # version @ slash # file)"
proof -
  have "fetch rt env req = artifact_route env rk ri rv file"
    by (rule fetch_artifact_shape [OF assms(1-8) assms(10) assms(9)])
  then have f: "fetch rt env req = Inr (serveArtifact env kind ident version file)"
    using assms(11-13) by (simp add: artifact_route_def)
  have n: "CATALOG_BUCKET env (keyJoin [js ''catalog'', kind, ident, version, file]) = None \<longrightarrow>
      fetch rt env req = Inr notFound \<and> status notFound = 404"
    using f by (simp add: serveArtifact_def notFound_def json_def)
  have s: "CATALOG_BUCKET env (keyJoin [js ''catalog'', kind, ident, version, file]) = Some obj \<longrightarrow>
      (\<exists>resp. fetch rt env req = Inr resp \<and> status resp = 200 \<and>
         body resp = Stream (object_body obj) \<and>
         hget (headers resp) (js ''etag'') = Some (httpEtag obj) \<and>
         hget (headers resp) (js ''cache-control'')
           = Some (js ''public, max-age=31536000, immutable'') \<and>
         (contentType (httpMetadata obj) = Some ct \<and> ct \<noteq> [] \<longrightarrow>
            hget (headers resp) (js ''content-type'') = Some ct) \<and>
         (contentType (httpMetadata obj) = None \<or> contentType (httpMetadata obj) = Some [] \<longrightarrow>
            hget (headers resp) (js ''content-type'')
              = Some (if endsWith file (js ''.json'') then js ''application/json; charset=utf-8''
                      else if endsWith file (js ''.yaml'') \<or> endsWith file (js ''.yml'')
                      then js ''text/yaml; charset=utf-8''
                      else js ''application/octet-stream'')))"
  proof
    assume b: "CATALOG_BUCKET env (keyJoin [js ''catalog'', kind, ident, version, file]) = Some obj"
    let ?r = "serveArtifact env kind ident version file"
    have "status ?r = 200" "body ?r = Stream (object_body obj)"
      using b by (simp_all add: serveArtifact_def Let_def)
    moreover have "contentType (httpMetadata obj) = Some ct \<and> ct \<noteq> [] \<longrightarrow>
        hget (headers ?r) (js ''content-type'') = Some ct"
      using hget_artifact_headers(3) [OF b] by (simp add: falsy_def)
    moreover have "contentType (httpMetadata obj) = None \<or> contentType (httpMetadata obj) = Some [] \<longrightarrow>
        hget (headers ?r) (js ''content-type'')
          = Some (if endsWith file (js ''.json'') then js ''application/json; charset=utf-8''
                  else if endsWith file (js ''.yaml'') \<or> endsWith file (js ''.yml'')
                  then js ''text/yaml; charset=utf-8''
                  else js ''application/octet-stream'')"
      using hget_artifact_headers(3) [OF b] by (auto simp: falsy_def)
    ultimately show "\<exists>resp. fetch rt env req = Inr resp \<and> status resp = 200 \<and>
         body resp = Stream (object_body obj) \<and>
         hget (headers resp) (js ''etag'') = Some (httpEtag obj) \<and>
         hget (headers resp) (js ''cache-control'')
           = Some (js ''public, max-age=31536000, immutable'') \<and>
         (contentType (httpMetadata obj) = Some ct \<and> ct \<noteq> [] \<longrightarrow>
            hget (headers resp) (js ''content-type'') = Some ct) \<and>
         (contentType (httpMetadata obj) = None \<or> contentType (httpMetadata obj) = Some [] \<longrightarrow>
            hget (headers resp) (js ''content-type'')
              = Some (if endsWith file (js ''.json'') then js ''application/json; charset=utf-8''
                      else if endsWith file (js ''.yaml'') \<or> endsWith file (js ''.yml'')
                      then js ''text/yaml; charset=utf-8''
                      else js ''application/octet-stream''))"
      using f hget_artifact_headers(1,2) [OF b] by blast
  qed
  have k: "kind \<noteq> [] \<and> slash \<notin> set kind \<and> backslash \<notin> set kind \<and>
    ident \<noteq> [] \<and> slash \<notin> set ident \<and> backslash \<notin> set ident \<and>
    version \<noteq> [] \<and> slash \<notin> set version \<and> backslash \<notin> set version \<and>
    canonical_key file \<longrightarrow>
      keyJoin [js ''catalog'', kind, ident, version, file]
        = js ''catalog/'' @ kind @ slash # ident @ slash # version @ slash # file"
    using artifact_key_literal [of kind ident version "file"] by blast
  from f n s k show ?thesis by blast
qed

text \<open>
  Two instances: an absent object on the legacy-prefixed path, and \<open>config.yaml\<close> stored
  without a content type, requested with an escaped kind.
\<close>

theorem artifact_request_response_witness:
  "fetch sample_runtime sample_env (sample_request ''GET'' ''/catalog/tools/x/2.1.0/missing.yaml'')
     = Inr notFound \<and>
   status notFound = 404 \<and>
   (\<exists>resp. fetch sample_runtime sample_env (sample_request ''GET'' ''/t%6Fols/x/2.1.0/config.yaml'')
        = Inr resp \<and>
      status resp = 200 \<and> body resp = Stream (object_body sample_object) \<and>
      hget (headers resp) (js ''etag'') = Some (js ''etag-1'') \<and>
      hget (headers resp) (js ''cache-control'') = Some (js ''public, max-age=31536000, immutable'') \<and>
      hget (headers resp) (js ''content-type'') = Some (js ''text/yaml; charset=utf-8'')) \<and>
   keyJoin [js ''catalog'', js ''tools'', js ''x'', js ''2.1.0'', js ''config.yaml'']
     = js ''catalog/tools/x/2.1.0/config.yaml''"
proof -
  let ?m = "sample_request ''GET'' ''/catalog/tools/x/2.1.0/missing.yaml''"
  let ?c = "sample_request ''GET'' ''/t%6Fols/x/2.1.0/config.yaml''"
  have d: "decodeURIComponent (js ''t%6Fols'') = Inr (js ''tools'')"
    "decodeURIComponent (js ''tools'') = Inr (js ''tools'')"
    "decodeURIComponent (js ''x'') = Inr (js ''x'')"
    "decodeURIComponent (js ''2.1.0'') = Inr (js ''2.1.0'')"
    by (simp_all add: js_def hexval_def prepend_def)
  have k1: "keyJoin [js ''catalog'', js ''tools'', js ''x'', js ''2.1.0'', js ''missing.yaml'']
      = js ''catalog/tools/x/2.1.0/missing.yaml''"
    by (simp add: keyJoin_def js_def replace_backslashes_def strip_leading_slash_def)
  have k2: "keyJoin [js ''catalog'', js ''tools'', js ''x'', js ''2.1.0'', js ''config.yaml'']
      = js ''catalog/tools/x/2.1.0/config.yaml''"
    by (simp add: keyJoin_def js_def replace_backslashes_def strip_leading_slash_def)
  have b1: "CATALOG_BUCKET sample_env (js ''catalog/tools/x/2.1.0/missing.yaml'') = None"
    by (simp add: sample_env_def js_eq_iff)
  have b2: "CATALOG_BUCKET sample_env (js ''catalog/tools/x/2.1.0/config.yaml'') = Some sample_object"
    by (simp add: sample_env_def js_eq_iff)
  have e: "\<not> endsWith (js ''config.yaml'') (js ''.json'')" "endsWith (js ''config.yaml'') (js ''.yaml'')"
    by (simp_all add: endsWith_def js_def)
  have m: "contentType (httpMetadata sample_object) = None" "httpEtag sample_object = js ''etag-1''"
    by (simp_all add: sample_object_def no_metadata_def)
  have segs: "js ''tools'' \<noteq> []" "slash \<notin> set (js ''tools'')" "js ''t%6Fols'' \<noteq> []"
    "slash \<notin> set (js ''t%6Fols'')" "js ''x'' \<noteq> []" "slash \<notin> set (js ''x'')"
    "js ''2.1.0'' \<noteq> []" "slash \<notin> set (js ''2.1.0'')" "js ''2.1.0'' \<noteq> js ''latest''"
    by (simp_all add: js_def)
  have dp: "dot_plus (js ''missing.yaml'')" "dot_plus (js ''config.yaml'')"
    by (simp_all add: dot_plus_def line_terminator_def js_def)
  have pm: "apiPath (pathname ?m)
      = slash # js ''tools'' @ slash # js ''x'' @ slash # js ''2.1.0'' @ slash # js ''missing.yaml''"
    by (simp add: sample_request_def apiPath_def startsWith_def js_def)
  have pc: "apiPath (pathname ?c)
      = slash # js ''t%6Fols'' @ slash # js ''x'' @ slash # js ''2.1.0'' @ slash # js ''config.yaml''"
    by (simp add: sample_request_def apiPath_def startsWith_def js_def)
  have g: "http_method ?m = js ''GET''" "http_method ?c = js ''GET''"
    by (simp_all add: sample_request_def)
  note tm = artifact_request_response
      [OF g(1) pm segs(1,2,5,6,7,8,9) dp(1) d(2,3,4), of sample_runtime sample_env sample_object "[]"]
  note tc = artifact_request_response
      [OF g(2) pc segs(3,4,5,6,7,8,9) dp(2) d(1,3,4), of sample_runtime sample_env sample_object "[]"]
  have a: "fetch sample_runtime sample_env ?m = Inr notFound \<and> status notFound = 404"
    using tm [THEN conjunct2, THEN conjunct1] b1 unfolding k1 by blast
  have "\<exists>resp. fetch sample_runtime sample_env ?c = Inr resp \<and> status resp = 200 \<and>
         body resp = Stream (object_body sample_object) \<and>
         hget (headers resp) (js ''etag'') = Some (httpEtag sample_object) \<and>
         hget (headers resp) (js ''cache-control'')
           = Some (js ''public, max-age=31536000, immutable'') \<and>
         (contentType (httpMetadata sample_object) = Some [] \<and> [] \<noteq> ([] :: jsstring) \<longrightarrow>
            hget (headers resp) (js ''content-type'') = Some []) \<and>
         (contentType (httpMetadata sample_object) = None \<or>
          contentType (httpMetadata sample_object) = Some [] \<longrightarrow>
            hget (headers resp) (js ''content-type'')
              = Some (if endsWith (js ''config.yaml'') (js ''.json'')
                      then js ''application/json; charset=utf-8''
                      else if endsWith (js ''config.yaml'') (js ''.yaml'') \<or>
                              endsWith (js ''config.yaml'') (js ''.yml'')
                      then js ''text/yaml; charset=utf-8''
                      else js ''application/octet-stream''))"
    using tc [THEN conjunct2, THEN conjunct2, THEN conjunct1] b2 unfolding k2 by blast
  then have b: "\<exists>resp. fetch sample_runtime sample_env ?c = Inr resp \<and>
      status resp = 200 \<and> body resp = Stream (object_body sample_object) \<and>
      hget (headers resp) (js ''etag'') = Some (js ''etag-1'') \<and>
      hget (headers resp) (js ''cache-control'') = Some (js ''public, max-age=31536000, immutable'') \<and>
      hget (headers resp) (js ''content-type'') = Some (js ''text/yaml; charset=utf-8'')"
    by (simp add: e m)
  from a b k2 show ?thesis by blast
qed

text \<open>
  The claim as stated fails in two ways. With an empty blob store, \<open>GET /k/i/%E0/f\<close> is
  not answered 404: the version segment does not decode and the handler raises
  \<open>URIError\<close>. And with an object stored under the literal key \<open>catalog/k/i/v/a//b\<close>,
  \<open>GET /k/i/v/a//b\<close> is answered 404: the resolver reads the canonical key
  \<open>catalog/k/i/v/a/b\<close>.
\<close>

theorem artifact_request_fails:
  "fetch sample_runtime (sample_env\<lparr>CATALOG_BUCKET := Map.empty\<rparr>)
     (sample_request ''GET'' ''/k/i/%E0/f'') = Inl URIError \<and>
   CATALOG_BUCKET (sample_env\<lparr>CATALOG_BUCKET := [js ''catalog/k/i/v/a//b'' \<mapsto> sample_object]\<rparr>)
     (js ''catalog/k/i/v/a//b'') = Some sample_object \<and>
   fetch sample_runtime (sample_env\<lparr>CATALOG_BUCKET := [js ''catalog/k/i/v/a//b'' \<mapsto> sample_object]\<rparr>)
     (sample_request ''GET'' ''/k/i/v/a//b'') = Inr notFound \<and>
   status notFound = 404"
proof -
  let ?e = "sample_env\<lparr>CATALOG_BUCKET := Map.empty\<rparr>"
  let ?l = "sample_env\<lparr>CATALOG_BUCKET := [js ''catalog/k/i/v/a//b'' \<mapsto> sample_object]\<rparr>"
  have "fetch sample_runtime ?e (sample_request ''GET'' ''/k/i/%E0/f'')
      = artifact_route ?e (js ''k'') (js ''i'') (js ''%E0'') (js ''f'')"
    by (rule fetch_artifact_shape)
       (simp_all add: sample_request_def apiPath_def startsWith_def js_def dot_plus_def
          line_terminator_def)
  then have a: "fetch sample_runtime ?e (sample_request ''GET'' ''/k/i/%E0/f'') = Inl URIError"
    by (simp add: artifact_route_def decode_plain decode_E0)
  have "fetch sample_runtime ?l (sample_request ''GET'' ''/k/i/v/a//b'')
      = artifact_route ?l (js ''k'') (js ''i'') (js ''v'') (js ''a//b'')"
    by (rule fetch_artifact_shape)
       (simp_all add: sample_request_def apiPath_def startsWith_def js_def dot_plus_def
          line_terminator_def)
  moreover have "keyJoin [js ''catalog'', js ''k'', js ''i'', js ''v'', js ''a//b'']
      = js ''catalog/k/i/v/a/b''"
    by (simp add: keyJoin_def js_def replace_backslashes_def strip_leading_slash_def)
  ultimately have b: "fetch sample_runtime ?l (sample_request ''GET'' ''/k/i/v/a//b'') = Inr notFound"
    by (simp add: artifact_route_def decode_plain serveArtifact_def js_eq_iff)
  have "status notFound = 404" by (simp add: notFound_def json_def)
  with a b show ?thesis by simp
qed

section \<open>Which route parameters are decoded\<close>

text \<open>
  C5 (as amended). Route matching operates on the raw path. For a GET request whose
  stripped path has the registry, latest-alias or artifact shape (segments not empty and
  without a slash, \<open>file\<close> not empty and without line terminators), the raw segments
  \<open>kind\<close>, \<open>id\<close> and \<open>version\<close> are percent-decoded before the resolver is called;
  \<open>file\<close> is not: the resolver receives the raw text that the pattern matched.
\<close>

theorem route_parameters_decoded:
  "http_method req = js ''GET'' \<Longrightarrow>
   (rk \<noteq> [] \<and> slash \<notin> set rk \<and> apiPath (pathname req) = slash # rk @ js ''/registry.json'' \<and>
    decodeURIComponent rk = Inr kind
      \<longrightarrow> fetch rt env req = Inr (serveRegistry env kind)) \<and>
   (rk \<noteq> [] \<and> slash \<notin> set rk \<and> ri \<noteq> [] \<and> slash \<notin> set ri \<and> dot_plus file \<and>
    apiPath (pathname req) = slash # rk @ slash # ri @ js ''/latest/'' @ file \<and>
    decodeURIComponent rk = Inr kind \<and> decodeURIComponent ri = Inr ident
      \<longrightarrow> fetch rt env req = serveLatestAlias rt (origin req) env kind ident file) \<and>
   (rk \<noteq> [] \<and> slash \<notin> set rk \<and> ri \<noteq> [] \<and> slash \<notin> set ri \<and> rv \<noteq> [] \<and> slash \<notin> set rv \<and>
    rv \<noteq> js ''latest'' \<and> dot_plus file \<and>
    apiPath (pathname req) = slash # rk @ slash # ri @ slash # rv @ slash # file \<and>
    decodeURIComponent rk = Inr kind \<and> decodeURIComponent ri = Inr ident \<and>
    decodeURIComponent rv = Inr version
      \<longrightarrow> fetch rt env req = Inr (serveArtifact env kind ident version file))"
proof (intro conjI impI)
  assume g: "http_method req = js ''GET''"
  {
    assume a: "rk \<noteq> [] \<and> slash \<notin> set rk \<and>
      apiPath (pathname req) = slash # rk @ js ''/registry.json'' \<and> decodeURIComponent rk = Inr kind"
    then have "registryMatch (apiPath (pathname req)) = Some rk"
      by (simp add: registry_shape)
    from fetch_registry [OF g this] a
    show "fetch rt env req = Inr (serveRegistry env kind)"
      by (simp add: registry_route_def)
  }
  {
    assume a: "rk \<noteq> [] \<and> slash \<notin> set rk \<and> ri \<noteq> [] \<and> slash \<notin> set ri \<and> dot_plus file \<and>
      apiPath (pathname req) = slash # rk @ slash # ri @ js ''/latest/'' @ file \<and>
      decodeURIComponent rk = Inr kind \<and> decodeURIComponent ri = Inr ident"
    then have "latestMatch (apiPath (pathname req)) = Some (rk, ri, file)"
      by (simp add: latest_shape)
    from fetch_latest [OF g this] a
    show "fetch rt env req = serveLatestAlias rt (origin req) env kind ident file"
      by (simp add: latest_route_def)
  }
  {
    assume a: "rk \<noteq> [] \<and> slash \<notin> set rk \<and> ri \<noteq> [] \<and> slash \<notin> set ri \<and> rv \<noteq> [] \<and>
      slash \<notin> set rv \<and> rv \<noteq> js ''latest'' \<and> dot_plus file \<and>
      apiPath (pathname req) = slash # rk @ slash # ri @ slash # rv @ slash # file \<and>
      decodeURIComponent rk = Inr kind \<and> decodeURIComponent ri = Inr ident \<and>
      decodeURIComponent rv = Inr version"
    then have "fetch rt env req = artifact_route env rk ri rv file"
      using g by (intro fetch_artifact_shape) simp_all
    with a show "fetch rt env req = Inr (serveArtifact env kind ident version file)"
      by (simp add: artifact_route_def)
  }
qed

theorem route_parameters_decoded_witness:
  "fetch sample_runtime sample_env (sample_request ''GET'' ''/t%6Fols/x/2.1.0/config.yaml'')
     = Inr (serveArtifact sample_env (js ''tools'') (js ''x'') (js ''2.1.0'') (js ''config.yaml''))"
proof -
  have d: "decodeURIComponent (js ''t%6Fols'') = Inr (js ''tools'')"
    "decodeURIComponent (js ''x'') = Inr (js ''x'')"
    "decodeURIComponent (js ''2.1.0'') = Inr (js ''2.1.0'')"
    by (simp_all add: js_def hexval_def prepend_def)
  show ?thesis
    using route_parameters_decoded
      [where req = "sample_request ''GET'' ''/t%6Fols/x/2.1.0/config.yaml''"
         and rk = "js ''t%6Fols''" and ri = "js ''x''" and rv = "js ''2.1.0''"
         and ?file = "js ''config.yaml''" and kind = "js ''tools''" and ident = "js ''x''"
         and version = "js ''2.1.0''" and rt = sample_runtime and env = sample_env] d
    by (simp add: sample_request_def apiPath_def startsWith_def js_def dot_plus_def
        line_terminator_def)
qed

text \<open>
  The claim as stated fails for \<open>file\<close>: for \<open>GET /k/i/v/a%20b\<close> the resolver is called
  with the file \<open>a%20b\<close> and answers 404, although the store holds an object under the
  key of the decoded file \<open>a b\<close>.
\<close>

theorem file_parameter_not_decoded:
  "decodeURIComponent (js ''a%20b'') = Inr (js ''a b'') \<and>
   fetch sample_runtime sample_env (sample_request ''GET'' ''/k/i/v/a%20b'')
     = Inr (serveArtifact sample_env (js ''k'') (js ''i'') (js ''v'') (js ''a%20b'')) \<and>
   serveArtifact sample_env (js ''k'') (js ''i'') (js ''v'') (js ''a%20b'') = notFound \<and>
   status notFound = 404 \<and>
   status (serveArtifact sample_env (js ''k'') (js ''i'') (js ''v'') (js ''a b'')) = 200"
proof -
  have d: "decodeURIComponent (js ''a%20b'') = Inr (js ''a b'')"
    by (simp add: js_def hexval_def prepend_def)
  have "fetch sample_runtime sample_env (sample_request ''GET'' ''/k/i/v/a%20b'')
     = artifact_route sample_env (js ''k'') (js ''i'') (js ''v'') (js ''a%20b'')"
    by (rule fetch_artifact_shape)
       (simp_all add: sample_request_def apiPath_def startsWith_def js_def dot_plus_def
          line_terminator_def)
  then have f: "fetch sample_runtime sample_env (sample_request ''GET'' ''/k/i/v/a%20b'')
     = Inr (serveArtifact sample_env (js ''k'') (js ''i'') (js ''v'') (js ''a%20b''))"
    by (simp add: artifact_route_def decode_plain)
  have k1: "keyJoin [js ''catalog'', js ''k'', js ''i'', js ''v'', js ''a%20b'']
      = js ''catalog/k/i/v/a%20b''"
    by (simp add: keyJoin_def js_def replace_backslashes_def strip_leading_slash_def)
  have k2: "keyJoin [js ''catalog'', js ''k'', js ''i'', js ''v'', js ''a b'']
      = js ''catalog/k/i/v/a b''"
    by (simp add: keyJoin_def js_def replace_backslashes_def strip_leading_slash_def)
  have n: "serveArtifact sample_env (js ''k'') (js ''i'') (js ''v'') (js ''a%20b'') = notFound"
    by (simp add: serveArtifact_def k1 sample_bucket_lookup)
  have s: "status (serveArtifact sample_env (js ''k'') (js ''i'') (js ''v'') (js ''a b'')) = 200"
    by (simp add: serveArtifact_def k2 sample_bucket_lookup Let_def)
  have "status notFound = 404" by (simp add: notFound_def json_def)
  with d f n s show ?thesis by simp
qed

section \<open>Route matching is ordered and exclusive\<close>




section \<open>Every response carries the cross-origin headers\<close>

text \<open>
  C7. Every response that \<open>fetch\<close> returns, on every route, carries the three headers of
  \<open>CORS_HEADERS\<close> with their fixed values; an OPTIONS request on any path is answered by
  the 204 with no body whose headers are exactly those.
\<close>

theorem every_response_carries_cors:
  "(fetch rt env req = Inr resp \<longrightarrow> carries_cors (headers resp)) \<and>
   (http_method req = js ''OPTIONS'' \<longrightarrow>
      fetch rt env req = Inr \<lparr>status = 204, headers = Headers CORS_HEADERS, body = NoBody\<rparr>)"
proof (intro conjI impI)
  assume "fetch rt env req = Inr resp"
  then show "carries_cors (headers resp)" by (rule cors_fetch)
next
  assume "http_method req = js ''OPTIONS''"
  then show "fetch rt env req = Inr \<lparr>status = 204, headers = Headers CORS_HEADERS, body = NoBody\<rparr>"
    by (simp add: fetch_def)
qed

theorem every_response_carries_cors_witness:
  "fetch sample_runtime sample_env (sample_request ''OPTIONS'' ''/any/path'')
     = Inr \<lparr>status = 204, headers = Headers CORS_HEADERS, body = NoBody\<rparr> \<and>
   carries_cors (Headers CORS_HEADERS) \<and>
   fetch sample_runtime sample_env (sample_request ''GET'' ''/nothing'') = Inr notFound \<and>
   carries_cors (headers notFound) \<and>
   hget (headers notFound) (js ''access-control-allow-origin'') = Some (js ''*'')"
proof -
  let ?o = "sample_request ''OPTIONS'' ''/any/path''"
  let ?g = "sample_request ''GET'' ''/nothing''"
  have o: "fetch sample_runtime sample_env ?o
     = Inr \<lparr>status = 204, headers = Headers CORS_HEADERS, body = NoBody\<rparr>"
    using every_response_carries_cors [of sample_runtime sample_env ?o]
    by (simp add: sample_request_def)
  then have co: "carries_cors (Headers CORS_HEADERS)"
    using every_response_carries_cors
      [of sample_runtime sample_env ?o "\<lparr>status = 204, headers = Headers CORS_HEADERS, body = NoBody\<rparr>"]
    by simp
  have g: "fetch sample_runtime sample_env ?g = Inr notFound"
    by (simp add: fetch_def sample_request_def js_def apiPath_def startsWith_def
        registryMatch_def latestMatch_def artifactMatch_def segment_def)
  then have cg: "carries_cors (headers notFound)"
    using every_response_carries_cors [of sample_runtime sample_env ?g notFound] by simp
  then have "hget (headers notFound) (js ''access-control-allow-origin'') = Some (js ''*'')"
    by (simp add: carries_cors_iff hget_def lower_names) (simp add: lower_def js_def)
  with o co g cg show ?thesis by simp
qed

section \<open>Requests outside the HTTP surface\<close>

text \<open>
  C8 (as amended). For every method other than OPTIONS: the root paths \<open>/\<close>, \<open>/catalog\<close>
  and \<open>/catalog/\<close> are answered by the 302 redirect, and \<open>/_health\<close> (after prefix
  stripping) by the 200 status payload, whatever the method; every other request that is
  neither \<open>POST /_ingest/github\<close> nor a GET matching one of the three resolver patterns
  is answered by the 404 \<open>not_found\<close>.
\<close>

theorem unlisted_requests_not_found:
  "http_method req \<noteq> js ''OPTIONS'' \<Longrightarrow>
   (pathname req = js ''/'' \<or> pathname req = js ''/catalog'' \<or> pathname req = js ''/catalog/''
      \<longrightarrow> fetch rt env req = Inr root_redirect \<and> status root_redirect = 302) \<and>
   (apiPath (pathname req) = js ''/_health''
      \<longrightarrow> fetch rt env req = Inr (health rt env (pathname req)) \<and>
          status (health rt env (pathname req)) = 200) \<and>
   (pathname req \<noteq> js ''/'' \<and> pathname req \<noteq> [] \<and> pathname req \<noteq> js ''/catalog'' \<and>
    pathname req \<noteq> js ''/catalog/'' \<and> apiPath (pathname req) \<noteq> js ''/_health'' \<and>
    (apiPath (pathname req) \<noteq> js ''/_ingest/github'' \<or> http_method req \<noteq> js ''POST'') \<and>
    (http_method req \<noteq> js ''GET'' \<or>
       (registryMatch (apiPath (pathname req)) = None \<and>
        latestMatch (apiPath (pathname req)) = None \<and>
        artifactMatch (apiPath (pathname req)) = None))
      \<longrightarrow> fetch rt env req = Inr notFound \<and> status notFound = 404)"
proof (intro conjI impI)
  assume m: "http_method req \<noteq> js ''OPTIONS''"
  {
    assume "pathname req = js ''/'' \<or> pathname req = js ''/catalog'' \<or> pathname req = js ''/catalog/''"
    then show "fetch rt env req = Inr root_redirect"
      using m by (auto simp: fetch_def Let_def)
    show "status root_redirect = 302" by (simp add: root_redirect_def)
  }
  {
    assume h: "apiPath (pathname req) = js ''/_health''"
    have "\<not> (pathname req = js ''/'' \<or> pathname req = [] \<or> pathname req = js ''/catalog'' \<or>
        pathname req = js ''/catalog/'')"
      using h by (auto simp: apiPath_def startsWith_def js_def)
    then show "fetch rt env req = Inr (health rt env (pathname req))"
      using m h by (simp add: fetch_def Let_def)
    show "status (health rt env (pathname req)) = 200"
      by (simp add: health_def json_def)
  }
  {
    assume a: "pathname req \<noteq> js ''/'' \<and> pathname req \<noteq> [] \<and> pathname req \<noteq> js ''/catalog'' \<and>
      pathname req \<noteq> js ''/catalog/'' \<and> apiPath (pathname req) \<noteq> js ''/_health'' \<and>
      (apiPath (pathname req) \<noteq> js ''/_ingest/github'' \<or> http_method req \<noteq> js ''POST'') \<and>
      (http_method req \<noteq> js ''GET'' \<or>
         (registryMatch (apiPath (pathname req)) = None \<and>
          latestMatch (apiPath (pathname req)) = None \<and>
          artifactMatch (apiPath (pathname req)) = None))"
    then show "fetch rt env req = Inr notFound"
      using m by (auto simp: fetch_def Let_def)
    show "status notFound = 404" by (simp add: notFound_def json_def)
  }
qed

theorem unlisted_requests_not_found_witness:
  "fetch sample_runtime sample_env (sample_request ''POST'' ''/tools/registry.json'') = Inr notFound \<and>
   fetch sample_runtime sample_env (sample_request ''GET'' ''/tools'') = Inr notFound \<and>
   fetch sample_runtime sample_env (sample_request ''HEAD'' ''/catalog/_health'')
     = Inr (health sample_runtime sample_env (js ''/catalog/_health''))"
proof -
  have a: "fetch sample_runtime sample_env (sample_request ''POST'' ''/tools/registry.json'')
      = Inr notFound"
    using unlisted_requests_not_found
      [of "sample_request ''POST'' ''/tools/registry.json''" sample_runtime sample_env]
    by (simp add: sample_request_def js_def apiPath_def startsWith_def)
  have b: "fetch sample_runtime sample_env (sample_request ''GET'' ''/tools'') = Inr notFound"
    using unlisted_requests_not_found
      [of "sample_request ''GET'' ''/tools''" sample_runtime sample_env]
    by (simp add: sample_request_def js_def apiPath_def startsWith_def
        registryMatch_def latestMatch_def artifactMatch_def segment_def)
  have c: "fetch sample_runtime sample_env (sample_request ''HEAD'' ''/catalog/_health'')
     = Inr (health sample_runtime sample_env (js ''/catalog/_health''))"
    using unlisted_requests_not_found
      [of "sample_request ''HEAD'' ''/catalog/_health''" sample_runtime sample_env]
    by (simp add: sample_request_def js_def apiPath_def startsWith_def)
  from a b c show ?thesis by simp
qed

text \<open>
  The claim as stated fails: the root redirect and the health check test no method, so
  \<open>POST /\<close> is answered 302 and \<open>DELETE /_health\<close> 200, not 404.
\<close>

theorem root_and_health_serve_any_method:
  "fetch sample_runtime sample_env (sample_request ''POST'' ''/'') = Inr root_redirect \<and>
   status root_redirect = 302 \<and>
   fetch sample_runtime sample_env (sample_request ''DELETE'' ''/_health'')
     = Inr (health sample_runtime sample_env (js ''/_health'')) \<and>
   status (health sample_runtime sample_env (js ''/_health'')) = 200"
  by (simp add: fetch_def sample_request_def js_def apiPath_def startsWith_def
      root_redirect_def health_def json_def)

section \<open>The handler is not total\<close>

text \<open>
  C9. The path \<open>/%E0/registry.json\<close> matches the registry pattern with the raw segment
  \<open>%E0\<close>; \<open>decodeURIComponent\<close> throws a \<open>URIError\<close> on it, and so the handler raises the
  exception instead of returning a response, whatever the runtime and the stores.
\<close>

theorem malformed_escape_throws:
  "registryMatch (apiPath (js ''/%E0/registry.json'')) = Some (js ''%E0'') \<and>
   decodeURIComponent (js ''%E0'') = Inl URIError \<and>
   fetch rt env \<lparr>http_method = js ''GET'', origin = orig, pathname = js ''/%E0/registry.json''\<rparr>
     = Inl URIError"
proof -
  have a: "apiPath (js ''/%E0/registry.json'') = slash # js ''%E0'' @ js ''/registry.json''"
    by (simp add: apiPath_def startsWith_def js_def)
  have m: "registryMatch (apiPath (js ''/%E0/registry.json'')) = Some (js ''%E0'')"
    unfolding a by (rule registry_shape) (simp_all add: js_def)
  have "fetch rt env \<lparr>http_method = js ''GET'', origin = orig, pathname = js ''/%E0/registry.json''\<rparr>
     = registry_route env (js ''%E0'')"
    by (rule fetch_registry) (simp_all add: m)
  then show ?thesis using m decode_E0 by (simp add: registry_route_def)
qed

theorem malformed_escape_throws_witness:
  "fetch sample_runtime sample_env (sample_request ''GET'' ''/%E0/registry.json'') = Inl URIError"
  using malformed_escape_throws [of sample_runtime sample_env "js ''https://okham.io''"]
  by (simp add: sample_request_def)

section \<open>Path-to-key resolution is not injective\<close>



end
